theory Spec2Isabelle
  imports Main
begin

section \<open>The MedBook reservation engine\<close>

text \<open>
  A shallow embedding of the PL/pgSQL functions of
  \<^verbatim>\<open>backend/supabase/002_functions.sql\<close> over the tables of
  \<^verbatim>\<open>backend/supabase/001_schema.sql\<close>.

  A table is the list of its rows. A UUID is a natural number, a
  \<^verbatim>\<open>TIMESTAMPTZ\<close> is an integer number of seconds, and a nullable column is an
  \<open>option\<close>. Every function of the source runs as one transaction, so it is one
  function from the database before to the database after; \<^verbatim>\<open>NOW()\<close>, the
  identifier drawn by \<^verbatim>\<open>uuid_generate_v4()\<close> and the set of slot rows that
  other transactions in flight hold locked are parameters.
\<close>

subsection \<open>Schema\<close>

type_synonym uuid = nat
type_synonym timestamptz = int

datatype booking_status = PENDING | CONFIRMED | FAILED | CANCELLED

text \<open>Table \<^verbatim>\<open>doctors\<close>: the columns the engine reads.\<close>

record doctor =
  d_id :: uuid
  d_name :: string

text \<open>
  Table \<^verbatim>\<open>slots\<close>. The schema lets \<^verbatim>\<open>is_available\<close> be NULL, but
  every statement that writes the column writes true or false and the default is true,
  so the column is a \<open>bool\<close>.
\<close>

record slot =
  s_id :: uuid
  s_doctor_id :: uuid
  start_time :: timestamptz
  end_time :: timestamptz
  is_available :: bool
  s_created_at :: timestamptz

text \<open>
  Table \<^verbatim>\<open>bookings\<close>. The column \<^verbatim>\<open>status\<close> is written by every
  insert and update of the functions and is never NULL.
\<close>

record booking =
  b_id :: uuid
  user_id :: uuid
  slot_id :: uuid
  doctor_id :: uuid
  status :: booking_status
  b_notes :: "string option"
  expires_at :: "timestamptz option"
  confirmed_at :: "timestamptz option"
  cancelled_at :: "timestamptz option"
  created_at :: timestamptz
  updated_at :: timestamptz

text \<open>The database: table \<^verbatim>\<open>users\<close> is the list of its primary keys.\<close>

record db =
  users :: "uuid list"
  doctors :: "doctor list"
  slots :: "slot list"
  bookings :: "booking list"

text \<open>
  The constraints the schema declares: the primary keys, \<^verbatim>\<open>unique_doctor_slot\<close>,
  \<^verbatim>\<open>valid_time_range\<close>, \<^verbatim>\<open>unique_active_booking UNIQUE (slot_id)\<close> and the
  foreign keys.
\<close>

definition schema_ok :: "db \<Rightarrow> bool" where
  "schema_ok st \<longleftrightarrow>
     distinct (users st) \<and>
     distinct (map d_id (doctors st)) \<and>
     distinct (map s_id (slots st)) \<and>
     distinct (map (\<lambda>s. (s_doctor_id s, start_time s)) (slots st)) \<and>
     list_all (\<lambda>s. start_time s < end_time s) (slots st) \<and>
     list_all (\<lambda>s. s_doctor_id s \<in> set (map d_id (doctors st))) (slots st) \<and>
     distinct (map b_id (bookings st)) \<and>
     distinct (map slot_id (bookings st)) \<and>
     list_all (\<lambda>b. user_id b \<in> set (users st)) (bookings st) \<and>
     list_all (\<lambda>b. slot_id b \<in> set (map s_id (slots st))) (bookings st) \<and>
     list_all (\<lambda>b. doctor_id b \<in> set (map d_id (doctors st))) (bookings st)"

subsection \<open>Results\<close>

text \<open>The error codes of the JSONB replies, and the exceptions PostgreSQL raises.\<close>

datatype error_code =
  SLOT_UNAVAILABLE | SLOT_LOCKED | SLOT_ALREADY_BOOKED
  | BOOKING_NOT_FOUND | INVALID_STATUS | BOOKING_EXPIRED

datatype pg_exception = lock_not_available | unique_violation | foreign_key_violation

text \<open>
  A reply is \<^verbatim>\<open>{success: true, ...}\<close> with its payload or
  \<^verbatim>\<open>{success: false, error, message}\<close>.
\<close>

datatype 'a reply = Success 'a | Failure error_code string

text \<open>A call returns its reply, or ends with an exception no handler caught.\<close>

datatype 'a outcome = Returned 'a | Raised pg_exception

text \<open>The \<^verbatim>\<open>booking\<close> object of a successful \<^verbatim>\<open>book_slot\<close>.\<close>

record booking_json =
  j_id :: uuid
  j_slot_id :: uuid
  j_doctor_id :: uuid
  j_doctor_name :: string
  j_start_time :: timestamptz
  j_end_time :: timestamptz
  j_status :: booking_status
  j_expires_at :: "timestamptz option"
  j_created_at :: timestamptz

fun status_text :: "booking_status \<Rightarrow> string" where
  "status_text PENDING = ''PENDING''"
| "status_text CONFIRMED = ''CONFIRMED''"
| "status_text FAILED = ''FAILED''"
| "status_text CANCELLED = ''CANCELLED''"

subsection \<open>Statements shared by the functions\<close>

text \<open>\<^verbatim>\<open>INTERVAL '2 minutes'\<close>, in seconds.\<close>

definition confirmation_window :: int where
  "confirmation_window = 120"

text \<open>
  \<^verbatim>\<open>expires_at < NOW()\<close>: a comparison with NULL is not true, in an
  \<^verbatim>\<open>IF\<close> as in a \<^verbatim>\<open>WHERE\<close>.
\<close>

fun before_now :: "timestamptz option \<Rightarrow> timestamptz \<Rightarrow> bool" where
  "before_now None now = False"
| "before_now (Some t) now = (t < now)"

text \<open>
  \<^verbatim>\<open>UPDATE bookings SET ... WHERE ...\<close>: the trigger
  \<^verbatim>\<open>update_bookings_updated_at\<close> stamps every row the statement updates.
\<close>

definition update_bookings ::
  "timestamptz \<Rightarrow> (booking \<Rightarrow> bool) \<Rightarrow> (booking \<Rightarrow> booking) \<Rightarrow> booking list \<Rightarrow> booking list" where
  "update_bookings now cond f bs =
     map (\<lambda>b. if cond b then (f b)\<lparr>updated_at := now\<rparr> else b) bs"

text \<open>\<^verbatim>\<open>UPDATE slots SET is_available = v WHERE ...\<close>.\<close>

definition set_available :: "(slot \<Rightarrow> bool) \<Rightarrow> bool \<Rightarrow> slot list \<Rightarrow> slot list" where
  "set_available cond v ss = map (\<lambda>s. if cond s then s\<lparr>is_available := v\<rparr> else s) ss"

text \<open>
  \<^verbatim>\<open>INSERT INTO bookings\<close>: the unique indexes (the primary key and
  \<^verbatim>\<open>unique_active_booking\<close>, which is over \<^verbatim>\<open>slot_id\<close> alone) are
  checked as the row is inserted, the foreign keys at the end of the statement.
\<close>

definition insert_booking :: "booking \<Rightarrow> db \<Rightarrow> pg_exception + db" where
  "insert_booking b st =
     (if b_id b \<in> set (map b_id (bookings st)) then Inl unique_violation
      else if slot_id b \<in> set (map slot_id (bookings st)) then Inl unique_violation
      else if user_id b \<in> set (users st) \<and> slot_id b \<in> set (map s_id (slots st))
              \<and> doctor_id b \<in> set (map d_id (doctors st))
      then Inr (st\<lparr>bookings := bookings st @ [b]\<rparr>)
      else Inl foreign_key_violation)"

subsection \<open>\<^verbatim>\<open>book_slot\<close>\<close>

text \<open>
  Step 1, \<^verbatim>\<open>SELECT s.*, d.name ... FROM slots s JOIN doctors d ON s.doctor_id = d.id
  WHERE s.id = p_slot_id AND s.is_available = true\<close>: the rows of the join.
\<close>

definition available_slot_rows :: "uuid \<Rightarrow> db \<Rightarrow> (slot \<times> doctor) list" where
  "available_slot_rows p_slot_id st =
     [(s, d). s \<leftarrow> slots st, d \<leftarrow> doctors st,
              s_doctor_id s = d_id d, s_id s = p_slot_id, is_available s]"

text \<open>
  \<^verbatim>\<open>SELECT ... INTO v_slot ... FOR UPDATE OF s NOWAIT\<close>: the first row of the join,
  none when the join is empty, and \<^verbatim>\<open>lock_not_available\<close> when the slot row it
  would lock is held by another transaction.
\<close>

definition select_slot_for_update ::
  "uuid set \<Rightarrow> uuid \<Rightarrow> db \<Rightarrow> pg_exception + (slot \<times> doctor) option" where
  "select_slot_for_update locked p_slot_id st =
     (case available_slot_rows p_slot_id st of
        [] \<Rightarrow> Inr None
      | row # _ \<Rightarrow> if p_slot_id \<in> locked then Inl lock_not_available else Inr (Some row))"

text \<open>
  Step 3, the row of \<^verbatim>\<open>INSERT INTO bookings (user_id, slot_id, doctor_id, status,
  expires_at) VALUES (...)\<close>: the other columns take their defaults.
\<close>

definition pending_row :: "timestamptz \<Rightarrow> uuid \<Rightarrow> uuid \<Rightarrow> uuid \<Rightarrow> uuid \<Rightarrow> booking" where
  "pending_row now new_id p_user_id p_slot_id v_doctor_id =
     \<lparr>b_id = new_id, user_id = p_user_id, slot_id = p_slot_id, doctor_id = v_doctor_id,
      status = PENDING, b_notes = None, expires_at = Some (now + confirmation_window),
      confirmed_at = None, cancelled_at = None, created_at = now, updated_at = now\<rparr>"

text \<open>Step 5, the \<^verbatim>\<open>booking\<close> object of the reply.\<close>

definition booking_object :: "booking \<Rightarrow> slot \<Rightarrow> doctor \<Rightarrow> booking_json" where
  "booking_object v_booking v_slot v_doctor =
     \<lparr>j_id = b_id v_booking, j_slot_id = slot_id v_booking,
      j_doctor_id = doctor_id v_booking, j_doctor_name = d_name v_doctor,
      j_start_time = start_time v_slot, j_end_time = end_time v_slot,
      j_status = status v_booking, j_expires_at = expires_at v_booking,
      j_created_at = created_at v_booking\<rparr>"

text \<open>The block between \<^verbatim>\<open>BEGIN\<close> and \<^verbatim>\<open>EXCEPTION\<close>.\<close>

definition book_slot_body ::
  "uuid set \<Rightarrow> timestamptz \<Rightarrow> uuid \<Rightarrow> uuid \<Rightarrow> uuid \<Rightarrow> db
     \<Rightarrow> pg_exception + (booking_json reply \<times> db)" where
  "book_slot_body locked now new_id p_user_id p_slot_id st =
     (case select_slot_for_update locked p_slot_id st of
        Inl e \<Rightarrow> Inl e
      | Inr None \<Rightarrow>
          Inr (Failure SLOT_UNAVAILABLE ''This slot is no longer available'', st)
      | Inr (Some (v_slot, v_doctor)) \<Rightarrow>
          (let v_doctor_id = s_doctor_id v_slot;
               v_booking = pending_row now new_id p_user_id p_slot_id v_doctor_id
           in case insert_booking v_booking st of
                Inl e \<Rightarrow> Inl e
              | Inr st1 \<Rightarrow>
                  Inr (Success (booking_object v_booking v_slot v_doctor),
                       st1\<lparr>slots := set_available (\<lambda>s. s_id s = p_slot_id) False (slots st1)\<rparr>)))"

text \<open>
  The function: an exception leaves the block with its changes rolled back; the two
  handlers turn theirs into a reply, any other exception ends the call.
\<close>

definition book_slot ::
  "uuid set \<Rightarrow> timestamptz \<Rightarrow> uuid \<Rightarrow> uuid \<Rightarrow> uuid \<Rightarrow> db
     \<Rightarrow> booking_json reply outcome \<times> db" where
  "book_slot locked now new_id p_user_id p_slot_id st =
     (case book_slot_body locked now new_id p_user_id p_slot_id st of
        Inr (r, st') \<Rightarrow> (Returned r, st')
      | Inl lock_not_available \<Rightarrow>
          (Returned (Failure SLOT_LOCKED
             ''Another user is booking this slot. Please try again in a moment.''), st)
      | Inl unique_violation \<Rightarrow>
          (Returned (Failure SLOT_ALREADY_BOOKED
             ''This slot was just booked by another user.''), st)
      | Inl e \<Rightarrow> (Raised e, st))"

subsection \<open>\<^verbatim>\<open>confirm_booking\<close>\<close>

definition confirm_booking ::
  "timestamptz \<Rightarrow> uuid \<Rightarrow> uuid \<Rightarrow> db \<Rightarrow> string reply \<times> db" where
  "confirm_booking now p_user_id p_booking_id st =
     (case find (\<lambda>b. b_id b = p_booking_id \<and> user_id b = p_user_id) (bookings st) of
        None \<Rightarrow> (Failure BOOKING_NOT_FOUND ''Booking not found'', st)
      | Some v_booking \<Rightarrow>
          if status v_booking \<noteq> PENDING
          then (Failure INVALID_STATUS
                  (''Booking cannot be confirmed. Current status: ''
                     @ status_text (status v_booking)), st)
          else if before_now (expires_at v_booking) now
          then (Failure BOOKING_EXPIRED ''Booking has expired. Please try booking again.'',
                st\<lparr>bookings := update_bookings now (\<lambda>b. b_id b = p_booking_id)
                                   (\<lambda>b. b\<lparr>status := FAILED\<rparr>) (bookings st),
                    slots := set_available (\<lambda>s. s_id s = slot_id v_booking) True (slots st)\<rparr>)
          else (Success ''Booking confirmed successfully'',
                st\<lparr>bookings := update_bookings now (\<lambda>b. b_id b = p_booking_id)
                                   (\<lambda>b. b\<lparr>status := CONFIRMED, confirmed_at := Some now,
                                           expires_at := None\<rparr>) (bookings st)\<rparr>))"

subsection \<open>\<^verbatim>\<open>cancel_booking\<close>\<close>

definition cancel_booking ::
  "timestamptz \<Rightarrow> uuid \<Rightarrow> uuid \<Rightarrow> db \<Rightarrow> string reply \<times> db" where
  "cancel_booking now p_user_id p_booking_id st =
     (case find (\<lambda>b. b_id b = p_booking_id \<and> user_id b = p_user_id) (bookings st) of
        None \<Rightarrow> (Failure BOOKING_NOT_FOUND ''Booking not found'', st)
      | Some v_booking \<Rightarrow>
          if status v_booking \<noteq> PENDING \<and> status v_booking \<noteq> CONFIRMED
          then (Failure INVALID_STATUS
                  (''Booking cannot be cancelled. Current status: ''
                     @ status_text (status v_booking)), st)
          else (Success ''Booking cancelled successfully'',
                st\<lparr>bookings := update_bookings now (\<lambda>b. b_id b = p_booking_id)
                                   (\<lambda>b. b\<lparr>status := CANCELLED, cancelled_at := Some now\<rparr>)
                                   (bookings st),
                    slots := set_available (\<lambda>s. s_id s = slot_id v_booking) True (slots st)\<rparr>))"

subsection \<open>\<^verbatim>\<open>expire_pending_bookings\<close>\<close>

text \<open>
  The rows the inner \<^verbatim>\<open>UPDATE bookings ... RETURNING slot_id\<close> updates, the outer
  \<^verbatim>\<open>UPDATE slots ... WHERE id IN (SELECT slot_id FROM expired)\<close>, and the
  \<^verbatim>\<open>ROW_COUNT\<close> of that outer statement, which \<^verbatim>\<open>GET DIAGNOSTICS\<close>
  reads: the number of slot rows it updated.
\<close>

definition is_expired :: "timestamptz \<Rightarrow> booking \<Rightarrow> bool" where
  "is_expired now b \<longleftrightarrow> status b = PENDING \<and> before_now (expires_at b) now"

definition expire_pending_bookings :: "timestamptz \<Rightarrow> db \<Rightarrow> int \<times> db" where
  "expire_pending_bookings now st =
     (let expired = map slot_id (filter (is_expired now) (bookings st));
          v_expired_count = int (length (filter (\<lambda>s. s_id s \<in> set expired) (slots st)))
      in (v_expired_count,
          st\<lparr>bookings := update_bookings now (is_expired now)
                             (\<lambda>b. b\<lparr>status := FAILED\<rparr>) (bookings st),
              slots := set_available (\<lambda>s. s_id s \<in> set expired) True (slots st)\<rparr>))"

subsection \<open>Executions\<close>

text \<open>A call of one of the four functions, with what the call reads from outside.\<close>

datatype event =
  Reserve "uuid set" timestamptz uuid uuid uuid
  | Confirm timestamptz uuid uuid
  | Cancel timestamptz uuid uuid
  | SweepExpired timestamptz

fun step :: "event \<Rightarrow> db \<Rightarrow> db" where
  "step (Reserve locked now new_id u s) st = snd (book_slot locked now new_id u s st)"
| "step (Confirm now u b) st = snd (confirm_booking now u b st)"
| "step (Cancel now u b) st = snd (cancel_booking now u b st)"
| "step (SweepExpired now) st = snd (expire_pending_bookings now st)"

fun run :: "event list \<Rightarrow> db \<Rightarrow> db" where
  "run [] st = st"
| "run (e # es) st = run es (step e st)"

text \<open>An active booking is one that is pending or confirmed.\<close>

definition active :: "booking \<Rightarrow> bool" where
  "active b \<longleftrightarrow> status b = PENDING \<or> status b = CONFIRMED"

subsection \<open>Invariants and an example database\<close>

text \<open>Some active booking among the rows refers to the slot.\<close>

definition active_on :: "booking list \<Rightarrow> uuid \<Rightarrow> bool" where
  "active_on bs sid \<longleftrightarrow> (\<exists>b \<in> set bs. slot_id b = sid \<and> active b)"

text \<open>A slot is available exactly when no active booking refers to it.\<close>

definition availability_invariant :: "db \<Rightarrow> bool" where
  "availability_invariant st \<longleftrightarrow>
     (\<forall>s \<in> set (slots st). is_available s \<longleftrightarrow> \<not> active_on (bookings st) (s_id s))"

text \<open>Only a pending booking carries an expiry time.\<close>

definition expiry_only_while_pending :: "db \<Rightarrow> bool" where
  "expiry_only_while_pending st \<longleftrightarrow>
     (\<forall>b \<in> set (bookings st). expires_at b \<noteq> None \<longrightarrow> status b = PENDING)"

text \<open>No confirmed booking carries an expiry time.\<close>

definition confirmed_without_expiry :: "db \<Rightarrow> bool" where
  "confirmed_without_expiry st \<longleftrightarrow>
     (\<forall>b \<in> set (bookings st). status b = CONFIRMED \<longrightarrow> expires_at b = None)"

text \<open>
  A booking with this identifier exists, and every booking with it is for this slot.
\<close>

definition booking_on_slot :: "uuid \<Rightarrow> uuid \<Rightarrow> db \<Rightarrow> bool" where
  "booking_on_slot bid sid st \<longleftrightarrow>
     bid \<in> set (map b_id (bookings st)) \<and>
     (\<forall>b \<in> set (bookings st). b_id b = bid \<longrightarrow> slot_id b = sid)"

text \<open>
  Two users (11 and 12), doctor 5, and the doctor's slot 7, available and never booked.
\<close>

definition clinic :: db where
  "clinic = \<lparr>users = [11, 12],
             doctors = [\<lparr>d_id = 5, d_name = ''Dr A''\<rparr>],
             slots = [\<lparr>s_id = 7, s_doctor_id = 5, start_time = 1000, end_time = 2000,
                       is_available = True, s_created_at = 0\<rparr>],
             bookings = []\<rparr>"

text \<open>The clinic after user 11 reserved slot 7 at time 0, as booking 100.\<close>

definition clinic_pending :: db where
  "clinic_pending = snd (book_slot {} 0 100 11 7 clinic)"

text \<open>The clinic after the sweep of time 121 found booking 100 still pending.\<close>

definition clinic_swept :: db where
  "clinic_swept = snd (expire_pending_bookings 121 clinic_pending)"

text \<open>The clinic after user 11 confirmed booking 100 at time 60.\<close>

definition clinic_confirmed :: db where
  "clinic_confirmed = snd (confirm_booking 60 11 100 clinic_pending)"

section \<open>Properties of the statements\<close>

subsection \<open>Updates keep the rows and their keys\<close>

lemma map_update_bookings:
  "(\<And>b. g (f b) = g b) \<Longrightarrow> (\<And>b t. g (b\<lparr>updated_at := t\<rparr>) = g b) \<Longrightarrow>
   map g (update_bookings now c f bs) = map g bs"
  by (induction bs) (simp_all add: update_bookings_def)

lemma set_update_bookings:
  "set (update_bookings now c f bs) =
     (\<lambda>b. if c b then (f b)\<lparr>updated_at := now\<rparr> else b) ` set bs"
  by (simp add: update_bookings_def)

lemma update_bookings_none:
  "(\<And>b. b \<in> set bs \<Longrightarrow> \<not> c b) \<Longrightarrow> update_bookings now c f bs = bs"
  by (induction bs) (simp_all add: update_bookings_def)

lemma list_all_update_bookings:
  "(\<And>b. P ((f b)\<lparr>updated_at := now\<rparr>) = P b) \<Longrightarrow>
   list_all P (update_bookings now c f bs) = list_all P bs"
  by (induction bs) (simp_all add: update_bookings_def)

lemma map_set_available:
  "(\<And>s v. g (s\<lparr>is_available := v\<rparr>) = g s) \<Longrightarrow> map g (set_available c v ss) = map g ss"
  by (induction ss) (simp_all add: set_available_def)

lemma set_available_none:
  "(\<And>s. s \<in> set ss \<Longrightarrow> \<not> c s) \<Longrightarrow> set_available c v ss = ss"
  by (induction ss) (simp_all add: set_available_def)

lemma list_all_set_available:
  "(\<And>s v. P (s\<lparr>is_available := v\<rparr>) = P s) \<Longrightarrow>
   list_all P (set_available c v ss) = list_all P ss"
  by (induction ss) (simp_all add: set_available_def)

subsection \<open>Active bookings after an update\<close>

lemma set_map_if:
  "set (map (\<lambda>b. if c b then g b else b) bs) = g ` {b \<in> set bs. c b} \<union> {b \<in> set bs. \<not> c b}"
  by (induction bs) auto

lemma set_map_if_key:
  assumes "inj_on k (set bs)" "v \<in> set bs"
  shows "set (map (\<lambda>b. if k b = k v then g b else b) bs) = insert (g v) (set bs - {v})"
proof -
  have 1: "{b \<in> set bs. k b = k v} = {v}"
    using assms by (auto dest: inj_onD)
  have 2: "{b \<in> set bs. k b \<noteq> k v} = set bs - {v}"
    using assms by (auto dest: inj_onD)
  show ?thesis
    unfolding set_map_if [of "\<lambda>b. k b = k v" g bs] 1 2 by simp
qed

lemma active_on_update_key:
  assumes inj: "inj_on slot_id (set bs)" "inj_on b_id (set bs)" and v: "v \<in> set bs"
    and g: "slot_id (g v) = slot_id v"
  shows "active_on (map (\<lambda>b. if b_id b = b_id v then g b else b) bs) q \<longleftrightarrow>
           (if q = slot_id v then active (g v) else active_on bs q)"
proof -
  have s: "set (map (\<lambda>b. if b_id b = b_id v then g b else b) bs) = insert (g v) (set bs - {v})"
    using inj(2) v by (rule set_map_if_key)
  have u: "\<And>b. b \<in> set bs \<Longrightarrow> slot_id b = slot_id v \<Longrightarrow> b = v"
    using inj(1) v by (meson inj_onD)
  show ?thesis
    unfolding active_on_def s using g u v by auto
qed

lemma active_on_update_all:
  assumes inj: "inj_on slot_id (set bs)"
    and g: "\<And>b. slot_id (g b) = slot_id b" "\<And>b. \<not> active (g b)"
  shows "active_on (map (\<lambda>b. if c b then g b else b) bs) q \<longleftrightarrow>
           active_on bs q \<and> q \<notin> slot_id ` {b \<in> set bs. c b}"
proof -
  have u: "\<And>b b'. b \<in> set bs \<Longrightarrow> b' \<in> set bs \<Longrightarrow> slot_id b = slot_id b' \<Longrightarrow> b = b'"
    using inj by (meson inj_onD)
  show ?thesis
    unfolding active_on_def set_map_if using g u by auto
qed

lemma availability_set_available:
  assumes "list_all (\<lambda>s. is_available s \<longleftrightarrow> \<not> A (s_id s)) ss"
    and "\<And>s. s \<in> set ss \<Longrightarrow> c s \<Longrightarrow> A' (s_id s) = (\<not> v)"
    and "\<And>s. s \<in> set ss \<Longrightarrow> \<not> c s \<Longrightarrow> A' (s_id s) = A (s_id s)"
  shows "list_all (\<lambda>s. is_available s \<longleftrightarrow> \<not> A' (s_id s)) (set_available c v ss)"
  using assms by (induction ss) (simp_all add: set_available_def)

lemma set_available_value:
  "list_all (\<lambda>s. c s \<longrightarrow> is_available s = v) (set_available c v ss)"
  by (induction ss) (simp_all add: set_available_def)

lemma slot_exists_iff: "(\<exists>s \<in> set ss. s_id s = p) \<longleftrightarrow> p \<in> set (map s_id ss)"
  by (induction ss) auto

subsection \<open>The steps of \<^verbatim>\<open>book_slot\<close>\<close>

lemma set_available_slot_rows:
  "set (available_slot_rows p st)
     = {(s, d). s \<in> set (slots st) \<and> d \<in> set (doctors st) \<and> s_doctor_id s = d_id d
                \<and> s_id s = p \<and> is_available s}"
  unfolding available_slot_rows_def by (auto split: if_splits)

lemma select_slot_Some:
  assumes a: "select_slot_for_update locked p st = Inr (Some (s, d))"
  shows "s \<in> set (slots st) \<and> d \<in> set (doctors st) \<and> s_doctor_id s = d_id d \<and>
     s_id s = p \<and> is_available s \<and> p \<notin> locked"
proof -
  from a obtain rest where r: "available_slot_rows p st = (s, d) # rest" and l: "p \<notin> locked"
    by (auto simp: select_slot_for_update_def split: list.splits if_splits)
  have "(s, d) \<in> set (available_slot_rows p st)" unfolding r by simp
  then show ?thesis using l unfolding set_available_slot_rows by simp
qed

lemma select_slot_None:
  assumes a: "select_slot_for_update locked p st = Inr None"
  shows "\<not> (\<exists>s \<in> set (slots st). \<exists>d \<in> set (doctors st).
          s_doctor_id s = d_id d \<and> s_id s = p \<and> is_available s)"
proof -
  from a have r: "available_slot_rows p st = []"
    by (auto simp: select_slot_for_update_def split: list.splits if_splits)
  have "set (available_slot_rows p st) = {}" unfolding r by simp
  then show ?thesis unfolding set_available_slot_rows by blast
qed

lemma select_slot_Inl:
  "select_slot_for_update locked p st = Inl e \<Longrightarrow> e = lock_not_available \<and> p \<in> locked"
  by (auto simp: select_slot_for_update_def split: list.splits if_splits)

lemma insert_booking_Inr:
  "insert_booking b st = Inr st1 \<Longrightarrow>
     st1 = st\<lparr>bookings := bookings st @ [b]\<rparr> \<and>
     b_id b \<notin> set (map b_id (bookings st)) \<and> slot_id b \<notin> set (map slot_id (bookings st)) \<and>
     user_id b \<in> set (users st) \<and> slot_id b \<in> set (map s_id (slots st)) \<and>
     doctor_id b \<in> set (map d_id (doctors st))"
  unfolding insert_booking_def by (simp split: if_splits)

lemma insert_booking_Inl:
  "insert_booking b st = Inl e \<Longrightarrow>
     (e = unique_violation \<and>
        (b_id b \<in> set (map b_id (bookings st)) \<or> slot_id b \<in> set (map slot_id (bookings st))))
     \<or> (e = foreign_key_violation \<and>
        b_id b \<notin> set (map b_id (bookings st)) \<and> slot_id b \<notin> set (map slot_id (bookings st)))"
  unfolding insert_booking_def by (simp split: if_splits)

text \<open>The five ways a call of \<^verbatim>\<open>book_slot\<close> ends.\<close>

lemma book_slot_cases:
  obtains
    (unavailable)
      "book_slot locked now new_id u p st =
         (Returned (Failure SLOT_UNAVAILABLE ''This slot is no longer available''), st)"
      "select_slot_for_update locked p st = Inr None"
  | (locked)
      "book_slot locked now new_id u p st =
         (Returned (Failure SLOT_LOCKED
            ''Another user is booking this slot. Please try again in a moment.''), st)"
      "p \<in> locked"
  | (already_booked) s d where
      "book_slot locked now new_id u p st =
         (Returned (Failure SLOT_ALREADY_BOOKED
            ''This slot was just booked by another user.''), st)"
      "select_slot_for_update locked p st = Inr (Some (s, d))"
      "insert_booking (pending_row now new_id u p (s_doctor_id s)) st = Inl unique_violation"
  | (foreign_key) s d where
      "book_slot locked now new_id u p st = (Raised foreign_key_violation, st)"
      "select_slot_for_update locked p st = Inr (Some (s, d))"
      "insert_booking (pending_row now new_id u p (s_doctor_id s)) st = Inl foreign_key_violation"
  | (booked) s d where
      "book_slot locked now new_id u p st =
         (Returned (Success (booking_object (pending_row now new_id u p (s_doctor_id s)) s d)),
          st\<lparr>bookings := bookings st @ [pending_row now new_id u p (s_doctor_id s)],
             slots := set_available (\<lambda>r. s_id r = p) False (slots st)\<rparr>)"
      "select_slot_for_update locked p st = Inr (Some (s, d))"
      "insert_booking (pending_row now new_id u p (s_doctor_id s)) st
         = Inr (st\<lparr>bookings := bookings st @ [pending_row now new_id u p (s_doctor_id s)]\<rparr>)"
proof (cases "select_slot_for_update locked p st")
  case (Inl e)
  then have "e = lock_not_available" "p \<in> locked" using select_slot_Inl by blast+
  with Inl show ?thesis
    by (intro locked) (simp_all add: book_slot_def book_slot_body_def Let_def)
next
  case (Inr r)
  show ?thesis
  proof (cases r)
    case None
    with Inr show ?thesis
      by (intro unavailable) (simp_all add: book_slot_def book_slot_body_def Let_def)
  next
    case (Some row)
    obtain s d where row: "row = (s, d)" by (cases row)
    let ?b = "pending_row now new_id u p (s_doctor_id s)"
    have sel: "select_slot_for_update locked p st = Inr (Some (s, d))"
      using Inr Some row by simp
    show ?thesis
    proof (cases "insert_booking ?b st")
      case (Inl e)
      from insert_booking_Inl [OF Inl] consider "e = unique_violation" | "e = foreign_key_violation"
        by blast
      then show ?thesis
      proof cases
        case 1
        with Inl sel show ?thesis
          by (intro already_booked [of s d]) (simp_all add: book_slot_def book_slot_body_def Let_def)
      next
        case 2
        with Inl sel show ?thesis
          by (intro foreign_key [of s d]) (simp_all add: book_slot_def book_slot_body_def Let_def)
      qed
    next
      case (Inr st1)
      from insert_booking_Inr [OF Inr] have st1: "st1 = st\<lparr>bookings := bookings st @ [?b]\<rparr>"
        by simp
      with Inr sel show ?thesis
        by (intro booked [of s d]) (simp_all add: book_slot_def book_slot_body_def Let_def)
    qed
  qed
qed

subsection \<open>Finding a row\<close>

lemma find_SomeD: "find P xs = Some x \<Longrightarrow> x \<in> set xs \<and> P x"
  by (induction xs) (auto split: if_splits)

lemma find_by_key:
  assumes d: "distinct (map k xs)" and x: "x \<in> set xs" and p: "P x"
    and key: "\<And>y. P y \<Longrightarrow> k y = k x"
  shows "find P xs = Some x"
  using d x
proof (induction xs)
  case Nil
  from Nil(2) show ?case by simp
next
  case (Cons a xs)
  show ?case
  proof (cases "a = x")
    case True
    with p show ?thesis by simp
  next
    case False
    with Cons.prems(2) have x: "x \<in> set xs" by simp
    then have "k x \<in> set (map k xs)" by simp
    with Cons.prems(1) have "k a \<noteq> k x" by auto
    with key have "\<not> P a" by blast
    moreover from Cons.prems(1) have "distinct (map k xs)" by simp
    ultimately show ?thesis using Cons.IH x by simp
  qed
qed

lemma schema_ok_inj:
  "schema_ok st \<Longrightarrow> inj_on b_id (set (bookings st)) \<and> inj_on slot_id (set (bookings st))"
  by (simp add: schema_ok_def distinct_map)

lemma active_on_append:
  "active_on (bs @ [b]) q \<longleftrightarrow> active_on bs q \<or> (slot_id b = q \<and> active b)"
  by (auto simp: active_on_def)

lemma availability_invariant_list:
  "availability_invariant st \<longleftrightarrow>
     list_all (\<lambda>s. is_available s \<longleftrightarrow> \<not> active_on (bookings st) (s_id s)) (slots st)"
  by (simp add: availability_invariant_def list_all_iff)

subsection \<open>\<^verbatim>\<open>book_slot\<close> keeps the constraints and the invariant\<close>

lemma book_slot_schema_ok:
  assumes "schema_ok st"
  shows "schema_ok (snd (book_slot locked now new_id u p st))"
proof (cases rule: book_slot_cases [of locked now new_id u p st])
  case (booked s d)
  from insert_booking_Inr [OF booked(3)] assms show ?thesis
    unfolding booked(1)
    by (simp add: schema_ok_def map_set_available list_all_set_available pending_row_def)
qed (use assms in simp_all)

lemma book_slot_availability:
  assumes "availability_invariant st"
  shows "availability_invariant (snd (book_slot locked now new_id u p st))"
proof (cases rule: book_slot_cases [of locked now new_id u p st])
  case (booked s d)
  let ?b = "pending_row now new_id u p (s_doctor_id s)"
  have b: "slot_id ?b = p" "active ?b" by (simp_all add: pending_row_def active_def)
  have "list_all (\<lambda>s. is_available s \<longleftrightarrow> \<not> active_on (bookings st @ [?b]) (s_id s))
          (set_available (\<lambda>r. s_id r = p) False (slots st))"
  proof (rule availability_set_available [where A = "active_on (bookings st)"])
    show "list_all (\<lambda>s. is_available s = (\<not> active_on (bookings st) (s_id s))) (slots st)"
      using assms by (simp add: availability_invariant_list)
  qed (simp_all add: active_on_append b)
  then show ?thesis
    unfolding booked(1) by (simp add: availability_invariant_list)
qed (use assms in simp_all)

subsection \<open>The ways \<^verbatim>\<open>confirm_booking\<close> and \<^verbatim>\<open>cancel_booking\<close> end\<close>

lemma confirm_booking_cases:
  obtains
    (not_found)
      "find (\<lambda>b. b_id b = bid \<and> user_id b = u) (bookings st) = None"
      "confirm_booking now u bid st = (Failure BOOKING_NOT_FOUND ''Booking not found'', st)"
  | (invalid) v where
      "find (\<lambda>b. b_id b = bid \<and> user_id b = u) (bookings st) = Some v"
      "status v \<noteq> PENDING"
      "confirm_booking now u bid st =
         (Failure INVALID_STATUS
            (''Booking cannot be confirmed. Current status: '' @ status_text (status v)), st)"
  | (expired) v where
      "find (\<lambda>b. b_id b = bid \<and> user_id b = u) (bookings st) = Some v"
      "status v = PENDING" "before_now (expires_at v) now"
      "confirm_booking now u bid st =
         (Failure BOOKING_EXPIRED ''Booking has expired. Please try booking again.'',
          st\<lparr>bookings := update_bookings now (\<lambda>b. b_id b = bid)
                             (\<lambda>b. b\<lparr>status := FAILED\<rparr>) (bookings st),
              slots := set_available (\<lambda>s. s_id s = slot_id v) True (slots st)\<rparr>)"
  | (confirmed) v where
      "find (\<lambda>b. b_id b = bid \<and> user_id b = u) (bookings st) = Some v"
      "status v = PENDING" "\<not> before_now (expires_at v) now"
      "confirm_booking now u bid st =
         (Success ''Booking confirmed successfully'',
          st\<lparr>bookings := update_bookings now (\<lambda>b. b_id b = bid)
                             (\<lambda>b. b\<lparr>status := CONFIRMED, confirmed_at := Some now,
                                     expires_at := None\<rparr>) (bookings st)\<rparr>)"
proof (cases "find (\<lambda>b. b_id b = bid \<and> user_id b = u) (bookings st)")
  case None
  then show ?thesis by (intro not_found) (simp_all add: confirm_booking_def)
next
  case (Some v)
  consider "status v \<noteq> PENDING"
    | "status v = PENDING" "before_now (expires_at v) now"
    | "status v = PENDING" "\<not> before_now (expires_at v) now"
    by blast
  then show ?thesis
  proof cases
    case 1
    with Some show ?thesis by (intro invalid [of v]) (simp_all add: confirm_booking_def)
  next
    case 2
    with Some show ?thesis by (intro expired [of v]) (simp_all add: confirm_booking_def)
  next
    case 3
    with Some show ?thesis by (intro confirmed [of v]) (simp_all add: confirm_booking_def)
  qed
qed

lemma cancel_booking_cases:
  obtains
    (not_found)
      "find (\<lambda>b. b_id b = bid \<and> user_id b = u) (bookings st) = None"
      "cancel_booking now u bid st = (Failure BOOKING_NOT_FOUND ''Booking not found'', st)"
  | (invalid) v where
      "find (\<lambda>b. b_id b = bid \<and> user_id b = u) (bookings st) = Some v"
      "status v \<noteq> PENDING" "status v \<noteq> CONFIRMED"
      "cancel_booking now u bid st =
         (Failure INVALID_STATUS
            (''Booking cannot be cancelled. Current status: '' @ status_text (status v)), st)"
  | (cancelled) v where
      "find (\<lambda>b. b_id b = bid \<and> user_id b = u) (bookings st) = Some v"
      "status v = PENDING \<or> status v = CONFIRMED"
      "cancel_booking now u bid st =
         (Success ''Booking cancelled successfully'',
          st\<lparr>bookings := update_bookings now (\<lambda>b. b_id b = bid)
                             (\<lambda>b. b\<lparr>status := CANCELLED, cancelled_at := Some now\<rparr>)
                             (bookings st),
              slots := set_available (\<lambda>s. s_id s = slot_id v) True (slots st)\<rparr>)"
proof (cases "find (\<lambda>b. b_id b = bid \<and> user_id b = u) (bookings st)")
  case None
  then show ?thesis by (intro not_found) (simp_all add: cancel_booking_def)
next
  case (Some v)
  show ?thesis
  proof (cases "status v = PENDING \<or> status v = CONFIRMED")
    case True
    with Some show ?thesis by (intro cancelled [of v]) (auto simp add: cancel_booking_def)
  next
    case False
    with Some show ?thesis by (intro invalid [of v]) (simp_all add: cancel_booking_def)
  qed
qed

subsection \<open>The other functions keep the constraints\<close>

lemma schema_ok_update:
  assumes ok: "schema_ok st"
    and f: "\<And>b. b_id (f b) = b_id b" "\<And>b. slot_id (f b) = slot_id b"
      "\<And>b. user_id (f b) = user_id b" "\<And>b. doctor_id (f b) = doctor_id b"
  shows "schema_ok (st\<lparr>bookings := update_bookings now c f (bookings st),
                        slots := set_available c' v (slots st)\<rparr>)"
    and "schema_ok (st\<lparr>bookings := update_bookings now c f (bookings st)\<rparr>)"
  using ok
  by (simp_all add: schema_ok_def map_set_available list_all_set_available
      map_update_bookings list_all_update_bookings f)

lemma confirm_booking_schema_ok:
  assumes "schema_ok st"
  shows "schema_ok (snd (confirm_booking now u bid st))"
proof (cases rule: confirm_booking_cases [of bid u st now])
  case (expired v)
  show ?thesis unfolding expired(4) snd_conv
    by (rule schema_ok_update(1) [OF assms]) simp_all
next
  case (confirmed v)
  show ?thesis unfolding confirmed(4) snd_conv
    by (rule schema_ok_update(2) [OF assms]) simp_all
qed (use assms in simp_all)

lemma cancel_booking_schema_ok:
  assumes "schema_ok st"
  shows "schema_ok (snd (cancel_booking now u bid st))"
proof (cases rule: cancel_booking_cases [of bid u st now])
  case (cancelled v)
  show ?thesis unfolding cancelled(3) snd_conv
    by (rule schema_ok_update(1) [OF assms]) simp_all
qed (use assms in simp_all)

lemma expire_pending_bookings_schema_ok:
  assumes "schema_ok st"
  shows "schema_ok (snd (expire_pending_bookings now st))"
  unfolding expire_pending_bookings_def Let_def snd_conv
  by (rule schema_ok_update(1) [OF assms]) simp_all

subsection \<open>The other functions keep the invariant\<close>

text \<open>Releasing the slot of the one row whose status leaves the active set.\<close>

lemma release_availability:
  assumes ok: "schema_ok st" and inv: "availability_invariant st"
    and v: "v \<in> set (bookings st)"
    and f: "\<And>b. slot_id (f b) = slot_id b" "\<And>b. \<not> active (f b)"
      "\<And>b t. active (b\<lparr>updated_at := t\<rparr>) = active b"
  shows "availability_invariant
           (st\<lparr>bookings := update_bookings now (\<lambda>b. b_id b = b_id v) f (bookings st),
               slots := set_available (\<lambda>s. s_id s = slot_id v) True (slots st)\<rparr>)"
proof -
  let ?g = "\<lambda>b. (f b)\<lparr>updated_at := now\<rparr>"
  let ?bs = "update_bookings now (\<lambda>b. b_id b = b_id v) f (bookings st)"
  have bs: "?bs = map (\<lambda>b. if b_id b = b_id v then ?g b else b) (bookings st)"
    by (simp add: update_bookings_def)
  have g: "slot_id (?g v) = slot_id v" "\<not> active (?g v)" by (simp_all add: f)
  have A: "\<And>q. active_on ?bs q \<longleftrightarrow> (if q = slot_id v then False else active_on (bookings st) q)"
    unfolding bs using schema_ok_inj [OF ok] v g
    by (subst active_on_update_key [where g = ?g]) simp_all
  have "list_all (\<lambda>s. is_available s \<longleftrightarrow> \<not> active_on ?bs (s_id s))
          (set_available (\<lambda>s. s_id s = slot_id v) True (slots st))"
  proof (rule availability_set_available [where A = "active_on (bookings st)"])
    show "list_all (\<lambda>s. is_available s = (\<not> active_on (bookings st) (s_id s))) (slots st)"
      using inv by (simp add: availability_invariant_list)
  qed (simp_all add: A)
  then show ?thesis by (simp add: availability_invariant_list)
qed

lemma confirm_availability:
  assumes ok: "schema_ok st" and inv: "availability_invariant st"
    and v: "v \<in> set (bookings st)" "status v = PENDING"
  shows "availability_invariant
           (st\<lparr>bookings := update_bookings now (\<lambda>b. b_id b = b_id v)
                              (\<lambda>b. b\<lparr>status := CONFIRMED, confirmed_at := Some now,
                                      expires_at := None\<rparr>) (bookings st)\<rparr>)"
proof -
  let ?g = "\<lambda>b. b\<lparr>status := CONFIRMED, confirmed_at := Some now,
                   expires_at := None, updated_at := now\<rparr>"
  let ?bs = "update_bookings now (\<lambda>b. b_id b = b_id v)
               (\<lambda>b. b\<lparr>status := CONFIRMED, confirmed_at := Some now, expires_at := None\<rparr>)
               (bookings st)"
  have bs: "?bs = map (\<lambda>b. if b_id b = b_id v then ?g b else b) (bookings st)"
    by (simp add: update_bookings_def)
  have g: "slot_id (?g v) = slot_id v" "active (?g v)" by (simp_all add: active_def)
  have "active v" using v(2) by (simp add: active_def)
  with v(1) have av: "active_on (bookings st) (slot_id v)" unfolding active_on_def by blast
  have A: "\<And>q. active_on ?bs q \<longleftrightarrow> active_on (bookings st) q"
    unfolding bs using schema_ok_inj [OF ok] v(1) g av
    by (subst active_on_update_key [where g = ?g]) simp_all
  show ?thesis using inv by (simp add: availability_invariant_def A)
qed

lemma confirm_booking_availability:
  assumes ok: "schema_ok st" and inv: "availability_invariant st"
  shows "availability_invariant (snd (confirm_booking now u bid st))"
proof (cases rule: confirm_booking_cases [of bid u st now])
  case (expired v)
  from find_SomeD [OF expired(1)] have v: "v \<in> set (bookings st)" "b_id v = bid" by simp_all
  have "snd (confirm_booking now u bid st) =
          st\<lparr>bookings := update_bookings now (\<lambda>b. b_id b = b_id v)
                             (\<lambda>b. b\<lparr>status := FAILED\<rparr>) (bookings st),
              slots := set_available (\<lambda>s. s_id s = slot_id v) True (slots st)\<rparr>"
    using expired(4) v(2) by simp
  then show ?thesis
    using release_availability [OF ok inv v(1), of "\<lambda>b. b\<lparr>status := FAILED\<rparr>" now]
    by (simp add: active_def)
next
  case (confirmed v)
  from find_SomeD [OF confirmed(1)] have v: "v \<in> set (bookings st)" "b_id v = bid" by simp_all
  have "snd (confirm_booking now u bid st) =
          st\<lparr>bookings := update_bookings now (\<lambda>b. b_id b = b_id v)
                             (\<lambda>b. b\<lparr>status := CONFIRMED, confirmed_at := Some now,
                                     expires_at := None\<rparr>) (bookings st)\<rparr>"
    using confirmed(4) v(2) by simp
  then show ?thesis
    using confirm_availability [OF ok inv v(1) confirmed(2), of now] by simp
qed (use inv in simp_all)

lemma cancel_booking_availability:
  assumes ok: "schema_ok st" and inv: "availability_invariant st"
  shows "availability_invariant (snd (cancel_booking now u bid st))"
proof (cases rule: cancel_booking_cases [of bid u st now])
  case (cancelled v)
  from find_SomeD [OF cancelled(1)] have v: "v \<in> set (bookings st)" "b_id v = bid" by simp_all
  have "snd (cancel_booking now u bid st) =
          st\<lparr>bookings := update_bookings now (\<lambda>b. b_id b = b_id v)
                             (\<lambda>b. b\<lparr>status := CANCELLED, cancelled_at := Some now\<rparr>)
                             (bookings st),
              slots := set_available (\<lambda>s. s_id s = slot_id v) True (slots st)\<rparr>"
    using cancelled(3) v(2) by simp
  then show ?thesis
    using release_availability
      [OF ok inv v(1), of "\<lambda>b. b\<lparr>status := CANCELLED, cancelled_at := Some now\<rparr>" now]
    by (simp add: active_def)
qed (use inv in simp_all)

lemma expire_pending_bookings_availability:
  assumes ok: "schema_ok st" and inv: "availability_invariant st"
  shows "availability_invariant (snd (expire_pending_bookings now st))"
proof -
  let ?g = "\<lambda>b. b\<lparr>status := FAILED, updated_at := now\<rparr>"
  let ?bs = "update_bookings now (is_expired now) (\<lambda>b. b\<lparr>status := FAILED\<rparr>) (bookings st)"
  let ?expired = "map slot_id (filter (is_expired now) (bookings st))"
  have bs: "?bs = map (\<lambda>b. if is_expired now b then ?g b else b) (bookings st)"
    by (simp add: update_bookings_def)
  have ex: "set ?expired = slot_id ` {b \<in> set (bookings st). is_expired now b}" by simp
  have A: "\<And>q. active_on ?bs q \<longleftrightarrow> active_on (bookings st) q \<and> q \<notin> set ?expired"
    unfolding bs ex using schema_ok_inj [OF ok]
    by (subst active_on_update_all [where g = ?g]) (simp_all add: active_def)
  have "list_all (\<lambda>s. is_available s \<longleftrightarrow> \<not> active_on ?bs (s_id s))
          (set_available (\<lambda>s. s_id s \<in> set ?expired) True (slots st))"
  proof (rule availability_set_available [where A = "active_on (bookings st)"])
    show "list_all (\<lambda>s. is_available s = (\<not> active_on (bookings st) (s_id s))) (slots st)"
      using inv by (simp add: availability_invariant_list)
  qed (simp_all add: A)
  then show ?thesis
    by (simp add: expire_pending_bookings_def Let_def availability_invariant_list)
qed

subsection \<open>Executions keep the constraints and the invariant\<close>

lemma step_invariants:
  assumes "schema_ok st" "availability_invariant st"
  shows "schema_ok (step e st) \<and> availability_invariant (step e st)"
  using assms
  by (cases e)
    (simp_all add: book_slot_schema_ok book_slot_availability
      confirm_booking_schema_ok confirm_booking_availability
      cancel_booking_schema_ok cancel_booking_availability
      expire_pending_bookings_schema_ok expire_pending_bookings_availability)

lemma run_invariants:
  "schema_ok st \<Longrightarrow> availability_invariant st \<Longrightarrow>
     schema_ok (run evs st) \<and> availability_invariant (run evs st)"
proof (induction evs arbitrary: st)
  case Nil
  then show ?case by simp
next
  case (Cons e evs)
  from step_invariants [OF Cons.prems, of e] Cons.IH [of "step e st"]
  show ?case by simp
qed

subsection \<open>The example database\<close>

lemmas eval_defs =
  book_slot_def book_slot_body_def select_slot_for_update_def available_slot_rows_def
  insert_booking_def set_available_def update_bookings_def pending_row_def booking_object_def
  confirmation_window_def confirm_booking_def cancel_booking_def expire_pending_bookings_def
  is_expired_def Let_def

lemma book_clinic:
  "book_slot {} 0 100 11 7 clinic =
     (Returned (Success \<lparr>j_id = 100, j_slot_id = 7, j_doctor_id = 5, j_doctor_name = ''Dr A'',
        j_start_time = 1000, j_end_time = 2000, j_status = PENDING,
        j_expires_at = Some 120, j_created_at = 0\<rparr>),
      \<lparr>users = [11, 12], doctors = [\<lparr>d_id = 5, d_name = ''Dr A''\<rparr>],
       slots = [\<lparr>s_id = 7, s_doctor_id = 5, start_time = 1000, end_time = 2000,
                 is_available = False, s_created_at = 0\<rparr>],
       bookings = [\<lparr>b_id = 100, user_id = 11, slot_id = 7, doctor_id = 5,
                    status = PENDING, b_notes = None, expires_at = Some 120,
                    confirmed_at = None, cancelled_at = None, created_at = 0,
                    updated_at = 0\<rparr>]\<rparr>)"
  by (simp add: clinic_def eval_defs)

lemma clinic_pending_eq:
  "clinic_pending =
     \<lparr>users = [11, 12], doctors = [\<lparr>d_id = 5, d_name = ''Dr A''\<rparr>],
      slots = [\<lparr>s_id = 7, s_doctor_id = 5, start_time = 1000, end_time = 2000,
                is_available = False, s_created_at = 0\<rparr>],
      bookings = [\<lparr>b_id = 100, user_id = 11, slot_id = 7, doctor_id = 5,
                   status = PENDING, b_notes = None, expires_at = Some 120,
                   confirmed_at = None, cancelled_at = None, created_at = 0,
                   updated_at = 0\<rparr>]\<rparr>"
  by (simp add: clinic_pending_def book_clinic)

lemma sweep_clinic_pending:
  "expire_pending_bookings 121 clinic_pending =
     (1, \<lparr>users = [11, 12], doctors = [\<lparr>d_id = 5, d_name = ''Dr A''\<rparr>],
          slots = [\<lparr>s_id = 7, s_doctor_id = 5, start_time = 1000, end_time = 2000,
                    is_available = True, s_created_at = 0\<rparr>],
          bookings = [\<lparr>b_id = 100, user_id = 11, slot_id = 7, doctor_id = 5,
                       status = FAILED, b_notes = None, expires_at = Some 120,
                       confirmed_at = None, cancelled_at = None, created_at = 0,
                       updated_at = 121\<rparr>]\<rparr>)"
  by (simp add: clinic_pending_eq eval_defs)

lemma clinic_swept_eq:
  "clinic_swept =
     \<lparr>users = [11, 12], doctors = [\<lparr>d_id = 5, d_name = ''Dr A''\<rparr>],
      slots = [\<lparr>s_id = 7, s_doctor_id = 5, start_time = 1000, end_time = 2000,
                is_available = True, s_created_at = 0\<rparr>],
      bookings = [\<lparr>b_id = 100, user_id = 11, slot_id = 7, doctor_id = 5,
                   status = FAILED, b_notes = None, expires_at = Some 120,
                   confirmed_at = None, cancelled_at = None, created_at = 0,
                   updated_at = 121\<rparr>]\<rparr>"
  by (simp add: clinic_swept_def sweep_clinic_pending)

lemma book_clinic_swept:
  "book_slot {} 122 101 12 7 clinic_swept =
     (Returned (Failure SLOT_ALREADY_BOOKED ''This slot was just booked by another user.''),
      clinic_swept)"
  by (simp add: clinic_swept_eq eval_defs)

lemma confirm_clinic_pending:
  "confirm_booking 60 11 100 clinic_pending =
     (Success ''Booking confirmed successfully'',
      \<lparr>users = [11, 12], doctors = [\<lparr>d_id = 5, d_name = ''Dr A''\<rparr>],
       slots = [\<lparr>s_id = 7, s_doctor_id = 5, start_time = 1000, end_time = 2000,
                 is_available = False, s_created_at = 0\<rparr>],
       bookings = [\<lparr>b_id = 100, user_id = 11, slot_id = 7, doctor_id = 5,
                    status = CONFIRMED, b_notes = None, expires_at = None,
                    confirmed_at = Some 60, cancelled_at = None, created_at = 0,
                    updated_at = 60\<rparr>]\<rparr>)"
  by (simp add: clinic_pending_eq eval_defs)

lemma clinic_confirmed_eq:
  "clinic_confirmed =
      \<lparr>users = [11, 12], doctors = [\<lparr>d_id = 5, d_name = ''Dr A''\<rparr>],
       slots = [\<lparr>s_id = 7, s_doctor_id = 5, start_time = 1000, end_time = 2000,
                 is_available = False, s_created_at = 0\<rparr>],
       bookings = [\<lparr>b_id = 100, user_id = 11, slot_id = 7, doctor_id = 5,
                    status = CONFIRMED, b_notes = None, expires_at = None,
                    confirmed_at = Some 60, cancelled_at = None, created_at = 0,
                    updated_at = 60\<rparr>]\<rparr>"
  by (simp add: clinic_confirmed_def confirm_clinic_pending)

lemma clinic_ok: "schema_ok clinic" "availability_invariant clinic"
  by (simp_all add: clinic_def schema_ok_def availability_invariant_def active_on_def)

lemma clinic_pending_ok: "schema_ok clinic_pending" "availability_invariant clinic_pending"
  by (simp_all add: clinic_pending_eq schema_ok_def availability_invariant_def active_on_def
      active_def)

lemma clinic_confirmed_ok: "schema_ok clinic_confirmed"
  by (simp add: clinic_confirmed_eq schema_ok_def)

subsection \<open>A slot that has a booking\<close>

lemma book_slot_blocked:
  assumes taken: "p \<in> set (map slot_id (bookings st))"
  shows "\<exists>e m. book_slot locked now new_id u p st = (Returned (Failure e m), st) \<and>
               e \<in> {SLOT_UNAVAILABLE, SLOT_LOCKED, SLOT_ALREADY_BOOKED}"
proof (cases rule: book_slot_cases [of locked now new_id u p st])
  case unavailable
  then show ?thesis by simp
next
  case locked
  then show ?thesis by simp
next
  case (already_booked s d)
  then show ?thesis by simp
next
  case (foreign_key s d)
  from insert_booking_Inl [OF foreign_key(3)] taken show ?thesis
    by (simp add: pending_row_def)
next
  case (booked s d)
  from insert_booking_Inr [OF booked(3)] taken show ?thesis
    by (simp add: pending_row_def)
qed

lemma booking_on_slot_keys:
  "booking_on_slot bid sid st \<longleftrightarrow>
     bid \<in> fst ` set (map (\<lambda>b. (b_id b, slot_id b)) (bookings st)) \<and>
     (\<forall>x \<in> set (map (\<lambda>b. (b_id b, slot_id b)) (bookings st)). fst x = bid \<longrightarrow> snd x = sid)"
  unfolding booking_on_slot_def by force

lemma booking_on_slot_same_keys:
  assumes "map (\<lambda>b. (b_id b, slot_id b)) (bookings st') =
           map (\<lambda>b. (b_id b, slot_id b)) (bookings st)"
  shows "booking_on_slot bid sid st' = booking_on_slot bid sid st"
  unfolding booking_on_slot_keys assms ..

lemma confirm_booking_keys:
  "map (\<lambda>b. (b_id b, slot_id b)) (bookings (snd (confirm_booking now u bid st))) =
   map (\<lambda>b. (b_id b, slot_id b)) (bookings st)"
  by (cases rule: confirm_booking_cases [of bid u st now]) (simp_all add: map_update_bookings)

lemma cancel_booking_keys:
  "map (\<lambda>b. (b_id b, slot_id b)) (bookings (snd (cancel_booking now u bid st))) =
   map (\<lambda>b. (b_id b, slot_id b)) (bookings st)"
  by (cases rule: cancel_booking_cases [of bid u st now]) (simp_all add: map_update_bookings)

lemma expire_pending_bookings_keys:
  "map (\<lambda>b. (b_id b, slot_id b)) (bookings (snd (expire_pending_bookings now st))) =
   map (\<lambda>b. (b_id b, slot_id b)) (bookings st)"
  by (simp add: expire_pending_bookings_def Let_def map_update_bookings)

lemma book_slot_booking_on_slot:
  assumes "booking_on_slot bid sid st"
  shows "booking_on_slot bid sid (snd (book_slot locked now new_id u p st))"
proof (cases rule: book_slot_cases [of locked now new_id u p st])
  case (booked s d)
  from insert_booking_Inr [OF booked(3)]
  have fresh: "new_id \<notin> set (map b_id (bookings st))" by (simp add: pending_row_def)
  from assms have "bid \<in> set (map b_id (bookings st))" by (simp add: booking_on_slot_def)
  with fresh have ne: "new_id \<noteq> bid" by blast
  have id: "b_id (pending_row now new_id u p (s_doctor_id s)) = new_id"
    by (simp add: pending_row_def)
  from assms ne show ?thesis
    unfolding booked(1) booking_on_slot_def by (simp add: id)
qed (use assms in simp_all)

lemma step_booking_on_slot:
  "booking_on_slot bid sid st \<Longrightarrow> booking_on_slot bid sid (step e st)"
  by (cases e)
    (simp_all add: book_slot_booking_on_slot
      booking_on_slot_same_keys [OF confirm_booking_keys]
      booking_on_slot_same_keys [OF cancel_booking_keys]
      booking_on_slot_same_keys [OF expire_pending_bookings_keys])

lemma run_booking_on_slot:
  "booking_on_slot bid sid st \<Longrightarrow> booking_on_slot bid sid (run evs st)"
  by (induction evs arbitrary: st) (simp_all add: step_booking_on_slot)

lemma book_slot_creates_booking_on_slot:
  assumes ok: "book_slot locked now new_id u p st = (Returned (Success j), st')"
  shows "booking_on_slot new_id p st'"
proof (cases rule: book_slot_cases [of locked now new_id u p st])
  case (booked s d)
  let ?b = "pending_row now new_id u p (s_doctor_id s)"
  from booked(1) ok have st': "bookings st' = bookings st @ [?b]" by auto
  from insert_booking_Inr [OF booked(3)]
  have fresh: "new_id \<notin> set (map b_id (bookings st))" by (simp add: pending_row_def)
  have b: "b_id ?b = new_id" "slot_id ?b = p" by (simp_all add: pending_row_def)
  from fresh show ?thesis
    unfolding booking_on_slot_def st' by (auto simp: b)
qed (use ok in simp_all)

subsection \<open>Nothing is left to expire after a sweep\<close>

lemma expire_pending_bookings_nothing:
  assumes "filter (is_expired now) (bookings st) = []"
  shows "expire_pending_bookings now st = (0, st)"
proof -
  from assms have none: "\<And>b. b \<in> set (bookings st) \<Longrightarrow> \<not> is_expired now b"
    by (simp add: filter_empty_conv)
  have "update_bookings now (is_expired now) (\<lambda>b. b\<lparr>status := FAILED\<rparr>) (bookings st)
          = bookings st"
    by (rule update_bookings_none) (rule none)
  moreover have "set_available (\<lambda>s. s_id s \<in> set []) True (slots st) = slots st"
    by (rule set_available_none) simp
  ultimately show ?thesis
    by (simp add: expire_pending_bookings_def assms)
qed

lemma still_not_expired:
  assumes "status b = PENDING \<longrightarrow> (\<forall>e. expires_at b = Some e \<longrightarrow> now \<le> e \<longrightarrow> now' \<le> e)"
    and "\<not> is_expired now b"
  shows "\<not> is_expired now' b"
  using assms by (cases "expires_at b") (auto simp: is_expired_def)

lemma nothing_expired_after_sweep:
  assumes "list_all (\<lambda>b. status b = PENDING \<longrightarrow>
                      (\<forall>e. expires_at b = Some e \<longrightarrow> now \<le> e \<longrightarrow> now' \<le> e)) bs"
  shows "filter (is_expired now')
     (update_bookings now (is_expired now) (\<lambda>b. b\<lparr>status := FAILED\<rparr>) bs) = []"
  using assms
proof (induction bs)
  case Nil
  show ?case by (simp add: update_bookings_def)
next
  case (Cons a bs)
  from Cons.prems have a: "status a = PENDING \<longrightarrow>
      (\<forall>e. expires_at a = Some e \<longrightarrow> now \<le> e \<longrightarrow> now' \<le> e)"
    and rest: "list_all (\<lambda>b. status b = PENDING \<longrightarrow>
                      (\<forall>e. expires_at b = Some e \<longrightarrow> now \<le> e \<longrightarrow> now' \<le> e)) bs"
    by simp_all
  have tl: "filter (is_expired now')
     (update_bookings now (is_expired now) (\<lambda>b. b\<lparr>status := FAILED\<rparr>) bs) = []"
    by (rule Cons.IH [OF rest])
  have failed: "\<not> is_expired now' (a\<lparr>status := FAILED, updated_at := now\<rparr>)"
    by (simp add: is_expired_def)
  show ?case
  proof (cases "is_expired now a")
    case True
    have "update_bookings now (is_expired now) (\<lambda>b. b\<lparr>status := FAILED\<rparr>) (a # bs) =
            a\<lparr>status := FAILED, updated_at := now\<rparr> #
            update_bookings now (is_expired now) (\<lambda>b. b\<lparr>status := FAILED\<rparr>) bs"
      using True by (simp add: update_bookings_def)
    then show ?thesis using failed tl by simp
  next
    case False
    have "update_bookings now (is_expired now) (\<lambda>b. b\<lparr>status := FAILED\<rparr>) (a # bs) =
            a # update_bookings now (is_expired now) (\<lambda>b. b\<lparr>status := FAILED\<rparr>) bs"
      using False by (simp add: update_bookings_def)
    then show ?thesis using still_not_expired [OF a False] tl by simp
  qed
qed

lemma sweep_at_deadline:
  "expire_pending_bookings 120 clinic_pending = (0, clinic_pending)"
  by (rule expire_pending_bookings_nothing) (simp add: clinic_pending_eq is_expired_def)

subsection \<open>Confirming and releasing\<close>

lemma booking_by_id:
  assumes "schema_ok st" "b \<in> set (bookings st)" "v \<in> set (bookings st)" "b_id b = b_id v"
  shows "b = v"
  using schema_ok_inj [OF assms(1)] assms(2-4) by (meson inj_onD)

lemma find_booking:
  assumes ok: "schema_ok st" and b: "b \<in> set (bookings st)"
  shows "find (\<lambda>r. b_id r = b_id b \<and> user_id r = user_id b) (bookings st) = Some b"
proof (rule find_by_key [where k = b_id])
  show "distinct (map b_id (bookings st))" using ok by (simp add: schema_ok_def)
qed (use b in simp_all)

lemma find_booking_other_user:
  assumes ok: "schema_ok st" and b: "b \<in> set (bookings st)" and u: "u \<noteq> user_id b"
  shows "find (\<lambda>r. b_id r = b_id b \<and> user_id r = u) (bookings st) = None"
proof -
  have "\<And>r. r \<in> set (bookings st) \<Longrightarrow> b_id r = b_id b \<Longrightarrow> user_id r \<noteq> u"
    using booking_by_id [OF ok _ b] u by blast
  then show ?thesis by (auto simp: find_None_iff)
qed

lemma confirm_booking_success_iff:
  assumes ok: "schema_ok st"
  shows "(\<exists>m. fst (confirm_booking now u bid st) = Success m) \<longleftrightarrow>
         (\<exists>b \<in> set (bookings st). b_id b = bid \<and> user_id b = u \<and> status b = PENDING \<and>
            \<not> before_now (expires_at b) now)"
proof (cases rule: confirm_booking_cases [of bid u st now])
  case not_found
  from not_found(1) have "\<And>b. b \<in> set (bookings st) \<Longrightarrow> \<not> (b_id b = bid \<and> user_id b = u)"
    by (simp add: find_None_iff)
  with not_found(2) show ?thesis by auto
next
  case (invalid v)
  from find_SomeD [OF invalid(1)] have v: "v \<in> set (bookings st)" "b_id v = bid" by simp_all
  have "\<And>b. b \<in> set (bookings st) \<Longrightarrow> b_id b = bid \<Longrightarrow> b = v"
    using booking_by_id [OF ok _ v(1)] v(2) by simp
  with invalid(2,3) show ?thesis by auto
next
  case (expired v)
  from find_SomeD [OF expired(1)] have v: "v \<in> set (bookings st)" "b_id v = bid" by simp_all
  have "\<And>b. b \<in> set (bookings st) \<Longrightarrow> b_id b = bid \<Longrightarrow> b = v"
    using booking_by_id [OF ok _ v(1)] v(2) by simp
  with expired(3,4) show ?thesis by auto
next
  case (confirmed v)
  from find_SomeD [OF confirmed(1)]
  have v: "v \<in> set (bookings st)" "b_id v = bid" "user_id v = u" by simp_all
  with confirmed(2,3) have "\<exists>b \<in> set (bookings st). b_id b = bid \<and> user_id b = u \<and>
      status b = PENDING \<and> \<not> before_now (expires_at b) now" by blast
  with confirmed(4) show ?thesis by simp
qed

lemma confirm_booking_success_state:
  assumes "fst (confirm_booking now u bid st) = Success m"
  shows "snd (confirm_booking now u bid st) =
           st\<lparr>bookings := update_bookings now (\<lambda>b. b_id b = bid)
                              (\<lambda>b. b\<lparr>status := CONFIRMED, confirmed_at := Some now,
                                      expires_at := None\<rparr>) (bookings st)\<rparr>"
  using assms by (cases rule: confirm_booking_cases [of bid u st now]) simp_all

lemma update_bookings_mem:
  "b \<in> set bs \<Longrightarrow> c b \<Longrightarrow> (f b)\<lparr>updated_at := now\<rparr> \<in> set (update_bookings now c f bs)"
  unfolding set_update_bookings by (rule image_eqI [of _ _ b]) simp_all

lemma failed_rows:
  "list_all (\<lambda>r. b_id r = bid \<longrightarrow> status r = FAILED)
     (update_bookings now (\<lambda>r. b_id r = bid) (\<lambda>r. r\<lparr>status := FAILED\<rparr>) bs)"
  by (induction bs) (simp_all add: update_bookings_def)

lemma released_slot:
  assumes "sid \<in> set (map s_id ss)"
  shows "(\<exists>s \<in> set (set_available (\<lambda>s. s_id s = sid) True ss). s_id s = sid) \<and>
         (\<forall>s \<in> set (set_available (\<lambda>s. s_id s = sid) True ss). s_id s = sid \<longrightarrow> is_available s)"
proof
  show "\<exists>s \<in> set (set_available (\<lambda>s. s_id s = sid) True ss). s_id s = sid"
    unfolding slot_exists_iff using assms by (simp add: map_set_available)
  show "\<forall>s \<in> set (set_available (\<lambda>s. s_id s = sid) True ss). s_id s = sid \<longrightarrow> is_available s"
    using set_available_value [of "\<lambda>s. s_id s = sid" True ss] by (simp add: list_all_iff)
qed

lemma booking_slot_exists:
  "schema_ok st \<Longrightarrow> b \<in> set (bookings st) \<Longrightarrow> slot_id b \<in> set (map s_id (slots st))"
  by (simp add: schema_ok_def list_all_iff)


subsection \<open>Confirmed bookings carry no expiry time\<close>

lemma confirmed_without_expiry_list:
  "confirmed_without_expiry st \<longleftrightarrow>
     list_all (\<lambda>b. status b = CONFIRMED \<longrightarrow> expires_at b = None) (bookings st)"
  by (simp add: confirmed_without_expiry_def list_all_iff)

lemma list_all_update_bookings_weak:
  assumes "list_all P bs" and "\<And>b. P b \<Longrightarrow> c b \<Longrightarrow> P ((f b)\<lparr>updated_at := now\<rparr>)"
  shows "list_all P (update_bookings now c f bs)"
  using assms by (induction bs) (simp_all add: update_bookings_def)

lemma book_slot_confirmed_without_expiry:
  assumes "confirmed_without_expiry st"
  shows "confirmed_without_expiry (snd (book_slot locked now new_id u p st))"
proof (cases rule: book_slot_cases [of locked now new_id u p st])
  case (booked s d)
  from assms show ?thesis
    unfolding booked(1) by (simp add: confirmed_without_expiry_list pending_row_def)
qed (use assms in simp_all)

lemma confirm_booking_confirmed_without_expiry:
  assumes "confirmed_without_expiry st"
  shows "confirmed_without_expiry (snd (confirm_booking now u bid st))"
proof (cases rule: confirm_booking_cases [of bid u st now])
  case (expired v)
  from assms show ?thesis
    unfolding expired(4) by (simp add: confirmed_without_expiry_list list_all_update_bookings_weak)
next
  case (confirmed v)
  from assms show ?thesis
    unfolding confirmed(4)
    by (simp add: confirmed_without_expiry_list list_all_update_bookings_weak)
qed (use assms in simp_all)

lemma cancel_booking_confirmed_without_expiry:
  assumes "confirmed_without_expiry st"
  shows "confirmed_without_expiry (snd (cancel_booking now u bid st))"
proof (cases rule: cancel_booking_cases [of bid u st now])
  case (cancelled v)
  from assms show ?thesis
    unfolding cancelled(3)
    by (simp add: confirmed_without_expiry_list list_all_update_bookings_weak)
qed (use assms in simp_all)

lemma expire_pending_bookings_confirmed_without_expiry:
  assumes "confirmed_without_expiry st"
  shows "confirmed_without_expiry (snd (expire_pending_bookings now st))"
  using assms
  by (simp add: expire_pending_bookings_def Let_def confirmed_without_expiry_list
      list_all_update_bookings_weak)

lemma step_confirmed_without_expiry:
  "confirmed_without_expiry st \<Longrightarrow> confirmed_without_expiry (step e st)"
  by (cases e)
    (simp_all add: book_slot_confirmed_without_expiry confirm_booking_confirmed_without_expiry
      cancel_booking_confirmed_without_expiry expire_pending_bookings_confirmed_without_expiry)

lemma run_confirmed_without_expiry:
  "confirmed_without_expiry st \<Longrightarrow> confirmed_without_expiry (run evs st)"
  by (induction evs arbitrary: st) (simp_all add: step_confirmed_without_expiry)

lemma run_clinic_swept:
  "run [Reserve {} 0 100 11 7, SweepExpired 121] clinic = clinic_swept"
  by (simp add: clinic_swept_def clinic_pending_def)

lemma cancelled_rows:
  "list_all (\<lambda>r. b_id r = bid \<longrightarrow> status r = CANCELLED \<and> cancelled_at r = Some now)
     (update_bookings now (\<lambda>r. b_id r = bid)
        (\<lambda>r. r\<lparr>status := CANCELLED, cancelled_at := Some now\<rparr>) bs)"
  by (induction bs) (simp_all add: update_bookings_def)

subsection \<open>What the functions do to the expiry times\<close>

lemma status_after_update:
  assumes "\<And>b. status ((f b)\<lparr>updated_at := now\<rparr>) = x"
  shows "map status (update_bookings now c f bs) = map (\<lambda>b. if c b then x else status b) bs"
  by (induction bs) (simp_all add: update_bookings_def assms)

lemma expiry_after_update:
  assumes "\<And>b. expires_at (f b) = expires_at b"
  shows "map expires_at (update_bookings now c f bs) = map expires_at bs"
  by (rule map_update_bookings) (simp_all add: assms)

lemma expiry_after_clearing:
  "map expires_at (update_bookings now c (\<lambda>b. b\<lparr>status := x, confirmed_at := t,
                                               expires_at := None\<rparr>) bs)
     = map (\<lambda>b. if c b then None else expires_at b) bs"
  by (induction bs) (simp_all add: update_bookings_def)

lemma book_slot_keeps_rows:
  "take (length (bookings st)) (bookings (snd (book_slot locked now new_id u p st)))
     = bookings st"
  by (cases rule: book_slot_cases [of locked now new_id u p st]) simp_all

lemma expire_pending_bookings_rows:
  "map expires_at (bookings (snd (expire_pending_bookings now st))) = map expires_at (bookings st)"
  "map status (bookings (snd (expire_pending_bookings now st)))
     = map (\<lambda>b. if status b = PENDING \<and> before_now (expires_at b) now then FAILED else status b)
         (bookings st)"
proof -
  show "map expires_at (bookings (snd (expire_pending_bookings now st)))
          = map expires_at (bookings st)"
    by (simp add: expire_pending_bookings_def Let_def expiry_after_update)
  have "map status (update_bookings now (is_expired now) (\<lambda>b. b\<lparr>status := FAILED\<rparr>) (bookings st))
          = map (\<lambda>b. if is_expired now b then FAILED else status b) (bookings st)"
    by (rule status_after_update) simp
  then show "map status (bookings (snd (expire_pending_bookings now st)))
     = map (\<lambda>b. if status b = PENDING \<and> before_now (expires_at b) now then FAILED else status b)
         (bookings st)"
    by (simp add: expire_pending_bookings_def Let_def is_expired_def)
qed

lemma cancel_booking_rows:
  "map expires_at (bookings (snd (cancel_booking now u bid st))) = map expires_at (bookings st)"
  "fst (cancel_booking now u bid st) = Success m \<Longrightarrow>
     map status (bookings (snd (cancel_booking now u bid st)))
       = map (\<lambda>b. if b_id b = bid then CANCELLED else status b) (bookings st)"
proof -
  show "map expires_at (bookings (snd (cancel_booking now u bid st))) = map expires_at (bookings st)"
    by (cases rule: cancel_booking_cases [of bid u st now]) (simp_all add: expiry_after_update)
  assume ok: "fst (cancel_booking now u bid st) = Success m"
  have "map status (update_bookings now (\<lambda>b. b_id b = bid)
           (\<lambda>b. b\<lparr>status := CANCELLED, cancelled_at := Some now\<rparr>) (bookings st))
          = map (\<lambda>b. if b_id b = bid then CANCELLED else status b) (bookings st)"
    by (rule status_after_update) simp
  with ok show "map status (bookings (snd (cancel_booking now u bid st)))
       = map (\<lambda>b. if b_id b = bid then CANCELLED else status b) (bookings st)"
    by (cases rule: cancel_booking_cases [of bid u st now]) simp_all
qed

lemma confirm_booking_rows:
  "\<forall>m. fst (confirm_booking now u bid st) \<noteq> Success m \<Longrightarrow>
     map expires_at (bookings (snd (confirm_booking now u bid st))) = map expires_at (bookings st)"
  "fst (confirm_booking now u bid st) = Failure BOOKING_EXPIRED m \<Longrightarrow>
     map status (bookings (snd (confirm_booking now u bid st)))
       = map (\<lambda>b. if b_id b = bid then FAILED else status b) (bookings st)"
  "fst (confirm_booking now u bid st) = Success m \<Longrightarrow>
     map expires_at (bookings (snd (confirm_booking now u bid st)))
       = map (\<lambda>b. if b_id b = bid then None else expires_at b) (bookings st)"
proof -
  assume "\<forall>m. fst (confirm_booking now u bid st) \<noteq> Success m"
  then show "map expires_at (bookings (snd (confirm_booking now u bid st)))
               = map expires_at (bookings st)"
    by (cases rule: confirm_booking_cases [of bid u st now]) (simp_all add: expiry_after_update)
next
  assume ex: "fst (confirm_booking now u bid st) = Failure BOOKING_EXPIRED m"
  have "map status (update_bookings now (\<lambda>b. b_id b = bid)
           (\<lambda>b. b\<lparr>status := FAILED\<rparr>) (bookings st))
          = map (\<lambda>b. if b_id b = bid then FAILED else status b) (bookings st)"
    by (rule status_after_update) simp
  with ex show "map status (bookings (snd (confirm_booking now u bid st)))
       = map (\<lambda>b. if b_id b = bid then FAILED else status b) (bookings st)"
    by (cases rule: confirm_booking_cases [of bid u st now]) simp_all
next
  assume "fst (confirm_booking now u bid st) = Success m"
  then show "map expires_at (bookings (snd (confirm_booking now u bid st)))
       = map (\<lambda>b. if b_id b = bid then None else expires_at b) (bookings st)"
    by (cases rule: confirm_booking_cases [of bid u st now])
      (simp_all add: expiry_after_clearing)
qed

section \<open>The claims\<close>

subsection \<open>Reserving after a sweep\<close>

text \<open>
  C1. The scenario of the specification: slot 7 is available; user 11 reserves it at
  time 0 and gets a pending booking that expires at 120; nobody confirms; the sweep of
  time 121 counts one booking, which is now failed, and slot 7 is available again. User 12
  then reserves slot 7. The specification says this call succeeds. It does not: the
  failed booking still holds the one \<^verbatim>\<open>slot_id\<close> that
  \<^verbatim>\<open>unique_active_booking UNIQUE (slot_id)\<close> allows, the insert raises
  \<^verbatim>\<open>unique_violation\<close>, and the reply is \<^verbatim>\<open>SLOT_ALREADY_BOOKED\<close> with the
  database unchanged.
\<close>

theorem reserve_after_sweep_is_refused:
  "fst (book_slot {} 0 100 11 7 clinic) =
     Returned (Success \<lparr>j_id = 100, j_slot_id = 7, j_doctor_id = 5, j_doctor_name = ''Dr A'',
        j_start_time = 1000, j_end_time = 2000, j_status = PENDING,
        j_expires_at = Some 120, j_created_at = 0\<rparr>)
   \<and> fst (expire_pending_bookings 121 clinic_pending) = 1
   \<and> map status (bookings clinic_swept) = [FAILED]
   \<and> map is_available (slots clinic_swept) = [True]
   \<and> book_slot {} 122 101 12 7 clinic_swept =
       (Returned (Failure SLOT_ALREADY_BOOKED ''This slot was just booked by another user.''),
        clinic_swept)"
  by (simp add: book_clinic sweep_clinic_pending book_clinic_swept) (simp add: clinic_swept_eq)

subsection \<open>A successful reservation\<close>

text \<open>
  C4. When \<^verbatim>\<open>book_slot\<close> succeeds, the bookings are the bookings before and one
  new row, for this requester and this slot, pending, expiring two minutes after the
  call; the slot row, which was available, is unavailable, and the other slots, the
  users and the doctors are as before. The call is one transaction, so no state lies
  between the database before and the database after.
\<close>

theorem book_slot_success_postcondition:
  assumes ok: "book_slot locked now new_id u p st = (Returned (Success j), st')"
  shows "\<exists>b. bookings st' = bookings st @ [b] \<and>
           b_id b = new_id \<and> user_id b = u \<and> slot_id b = p \<and>
           status b = PENDING \<and> expires_at b = Some (now + 2 * 60) \<and>
           confirmed_at b = None \<and> cancelled_at b = None \<and>
           j_id j = new_id \<and> j_slot_id j = p \<and> j_status j = PENDING \<and>
           j_expires_at j = Some (now + 2 * 60) \<and>
           slots st' = set_available (\<lambda>s. s_id s = p) False (slots st) \<and>
           users st' = users st \<and> doctors st' = doctors st \<and>
           (\<exists>s \<in> set (slots st). s_id s = p \<and> is_available s) \<and>
           (\<exists>s \<in> set (slots st'). s_id s = p) \<and>
           (\<forall>s \<in> set (slots st'). s_id s = p \<longrightarrow> \<not> is_available s)"
proof (cases rule: book_slot_cases [of locked now new_id u p st])
  case (booked s d)
  let ?b = "pending_row now new_id u p (s_doctor_id s)"
  from booked(1) ok have j: "j = booking_object ?b s d"
    and st': "st' = st\<lparr>bookings := bookings st @ [?b],
                       slots := set_available (\<lambda>r. s_id r = p) False (slots st)\<rparr>"
    by simp_all
  from select_slot_Some [OF booked(2)] have s: "s \<in> set (slots st)" "s_id s = p" "is_available s"
    by simp_all
  from s have before: "\<exists>s \<in> set (slots st). s_id s = p \<and> is_available s" by blast
  from s have "\<exists>s \<in> set (slots st). s_id s = p" by blast
  then have "\<exists>s \<in> set (slots st'). s_id s = p"
    unfolding st' slot_exists_iff by (simp add: map_set_available)
  moreover have "\<forall>s \<in> set (slots st'). s_id s = p \<longrightarrow> \<not> is_available s"
    using set_available_value [of "\<lambda>r. s_id r = p" False "slots st"]
    unfolding st' by (simp add: list_all_iff)
  moreover have "bookings st' = bookings st @ [?b]" "users st' = users st"
    "doctors st' = doctors st"
    "slots st' = set_available (\<lambda>s. s_id s = p) False (slots st)"
    unfolding st' by simp_all
  moreover have "b_id ?b = new_id" "user_id ?b = u" "slot_id ?b = p" "status ?b = PENDING"
    "expires_at ?b = Some (now + 2 * 60)" "confirmed_at ?b = None" "cancelled_at ?b = None"
    by (simp_all add: pending_row_def confirmation_window_def)
  moreover have "j_id j = new_id" "j_slot_id j = p" "j_status j = PENDING"
    "j_expires_at j = Some (now + 2 * 60)"
    unfolding j by (simp_all add: booking_object_def pending_row_def confirmation_window_def)
  ultimately show ?thesis using before by blast
qed (use ok in simp_all)

theorem book_slot_success_postcondition_witness:
  "book_slot {} 0 100 11 7 clinic =
     (Returned (Success \<lparr>j_id = 100, j_slot_id = 7, j_doctor_id = 5, j_doctor_name = ''Dr A'',
        j_start_time = 1000, j_end_time = 2000, j_status = PENDING,
        j_expires_at = Some 120, j_created_at = 0\<rparr>), clinic_pending)
   \<and> (\<exists>b. bookings clinic_pending = bookings clinic @ [b] \<and>
           b_id b = 100 \<and> user_id b = 11 \<and> slot_id b = 7 \<and>
           status b = PENDING \<and> expires_at b = Some (0 + 2 * 60))
   \<and> map is_available (slots clinic) = [True]
   \<and> map is_available (slots clinic_pending) = [False]"
proof -
  have h: "book_slot {} 0 100 11 7 clinic =
     (Returned (Success \<lparr>j_id = 100, j_slot_id = 7, j_doctor_id = 5, j_doctor_name = ''Dr A'',
        j_start_time = 1000, j_end_time = 2000, j_status = PENDING,
        j_expires_at = Some 120, j_created_at = 0\<rparr>), clinic_pending)"
    by (simp add: book_clinic clinic_pending_eq)
  from book_slot_success_postcondition [OF h]
  have "\<exists>b. bookings clinic_pending = bookings clinic @ [b] \<and>
           b_id b = 100 \<and> user_id b = 11 \<and> slot_id b = 7 \<and>
           status b = PENDING \<and> expires_at b = Some (0 + 2 * 60)"
    by blast
  moreover have "map is_available (slots clinic) = [True]" by (simp add: clinic_def)
  moreover have "map is_available (slots clinic_pending) = [False]"
    by (simp add: clinic_pending_eq)
  ultimately show ?thesis using h by blast
qed

subsection \<open>A refused reservation\<close>

text \<open>
  C10. Whenever \<^verbatim>\<open>book_slot\<close> does not succeed, the database is the one before
  the call: no booking row is added and no slot row is changed. This covers the reply
  \<^verbatim>\<open>SLOT_UNAVAILABLE\<close>, the reply \<^verbatim>\<open>SLOT_LOCKED\<close>, the reply
  \<^verbatim>\<open>SLOT_ALREADY_BOOKED\<close> (the insert was attempted after the row lock and
  violated a unique index), and a call that ends with an exception.
\<close>

theorem book_slot_failure_leaves_database:
  assumes "\<forall>j. fst (book_slot locked now new_id u p st) \<noteq> Returned (Success j)"
  shows "snd (book_slot locked now new_id u p st) = st"
  using assms by (cases rule: book_slot_cases [of locked now new_id u p st]) simp_all

theorem book_slot_failure_leaves_database_witness:
  "fst (book_slot {} 122 101 12 7 clinic_swept) =
     Returned (Failure SLOT_ALREADY_BOOKED ''This slot was just booked by another user.'')
   \<and> snd (book_slot {} 122 101 12 7 clinic_swept) = clinic_swept
   \<and> fst (book_slot {7} 0 100 11 7 clinic) =
     Returned (Failure SLOT_LOCKED
       ''Another user is booking this slot. Please try again in a moment.'')
   \<and> snd (book_slot {7} 0 100 11 7 clinic) = clinic
   \<and> fst (book_slot {} 1 101 12 7 clinic_pending) =
     Returned (Failure SLOT_UNAVAILABLE ''This slot is no longer available'')
   \<and> snd (book_slot {} 1 101 12 7 clinic_pending) = clinic_pending"
proof -
  have a: "fst (book_slot {} 122 101 12 7 clinic_swept) =
     Returned (Failure SLOT_ALREADY_BOOKED ''This slot was just booked by another user.'')"
    by (simp add: book_clinic_swept)
  have b: "fst (book_slot {7} 0 100 11 7 clinic) =
     Returned (Failure SLOT_LOCKED
       ''Another user is booking this slot. Please try again in a moment.'')"
    by (simp add: clinic_def eval_defs)
  have c: "fst (book_slot {} 1 101 12 7 clinic_pending) =
     Returned (Failure SLOT_UNAVAILABLE ''This slot is no longer available'')"
    by (simp add: clinic_pending_eq eval_defs)
  have "snd (book_slot {} 122 101 12 7 clinic_swept) = clinic_swept"
    by (rule book_slot_failure_leaves_database) (simp add: a)
  moreover have "snd (book_slot {7} 0 100 11 7 clinic) = clinic"
    by (rule book_slot_failure_leaves_database) (simp add: b)
  moreover have "snd (book_slot {} 1 101 12 7 clinic_pending) = clinic_pending"
    by (rule book_slot_failure_leaves_database) (simp add: c)
  ultimately show ?thesis using a b c by blast
qed

subsection \<open>One reservation per slot\<close>

text \<open>
  C2. Let a call of \<^verbatim>\<open>book_slot\<close> on a slot succeed and create booking
  \<open>new_id\<close>, and let any sequence of calls of the four functions follow, by any
  users, at any times, with any rows locked by transactions in flight. As long as booking
  \<open>new_id\<close> is still pending or confirmed, every further call of
  \<^verbatim>\<open>book_slot\<close> on that slot returns one of \<^verbatim>\<open>SLOT_UNAVAILABLE\<close>,
  \<^verbatim>\<open>SLOT_LOCKED\<close> and \<^verbatim>\<open>SLOT_ALREADY_BOOKED\<close>, never a success, and
  leaves the database as it is. Calls are transactions, taken one after the other.
\<close>

theorem reserve_mutual_exclusion:
  assumes first: "book_slot locked now new_id u sid st = (Returned (Success j), st1)"
    and still_active: "\<exists>b \<in> set (bookings (run evs st1)). b_id b = new_id \<and> active b"
  shows "\<exists>e m. book_slot locked' now' new_id' u' sid (run evs st1)
                 = (Returned (Failure e m), run evs st1) \<and>
               e \<in> {SLOT_UNAVAILABLE, SLOT_LOCKED, SLOT_ALREADY_BOOKED}"
proof -
  from book_slot_creates_booking_on_slot [OF first]
  have "booking_on_slot new_id sid (run evs st1)" by (rule run_booking_on_slot)
  with still_active have "sid \<in> set (map slot_id (bookings (run evs st1)))"
    unfolding booking_on_slot_def by force
  then show ?thesis by (rule book_slot_blocked)
qed

theorem reserve_mutual_exclusion_witness:
  "book_slot {} 0 100 11 7 clinic =
     (Returned (Success \<lparr>j_id = 100, j_slot_id = 7, j_doctor_id = 5, j_doctor_name = ''Dr A'',
        j_start_time = 1000, j_end_time = 2000, j_status = PENDING,
        j_expires_at = Some 120, j_created_at = 0\<rparr>), clinic_pending)
   \<and> (\<exists>b \<in> set (bookings (run [Confirm 60 11 100] clinic_pending)).
         b_id b = 100 \<and> active b)
   \<and> (\<exists>e m. book_slot {} 61 101 12 7 (run [Confirm 60 11 100] clinic_pending)
                 = (Returned (Failure e m), run [Confirm 60 11 100] clinic_pending) \<and>
               e \<in> {SLOT_UNAVAILABLE, SLOT_LOCKED, SLOT_ALREADY_BOOKED})"
proof -
  have h1: "book_slot {} 0 100 11 7 clinic =
     (Returned (Success \<lparr>j_id = 100, j_slot_id = 7, j_doctor_id = 5, j_doctor_name = ''Dr A'',
        j_start_time = 1000, j_end_time = 2000, j_status = PENDING,
        j_expires_at = Some 120, j_created_at = 0\<rparr>), clinic_pending)"
    by (simp add: book_clinic clinic_pending_eq)
  have r: "run [Confirm 60 11 100] clinic_pending = clinic_confirmed"
    by (simp add: clinic_confirmed_def)
  have h2: "\<exists>b \<in> set (bookings (run [Confirm 60 11 100] clinic_pending)).
              b_id b = 100 \<and> active b"
    unfolding r by (simp add: clinic_confirmed_eq active_def)
  from reserve_mutual_exclusion [OF h1 h2, of "{}" 61 101 12] h1 h2
  show ?thesis by blast
qed

subsection \<open>Availability\<close>

text \<open>
  C3. In a database that satisfies the constraints of the schema, let every slot be
  available if and only if no booking that refers to it is pending or confirmed. Then the
  same holds after any sequence of calls of \<^verbatim>\<open>book_slot\<close>,
  \<^verbatim>\<open>confirm_booking\<close>, \<^verbatim>\<open>cancel_booking\<close> and
  \<^verbatim>\<open>expire_pending_bookings\<close>; a single call is a sequence of length one.
\<close>

theorem availability_invariant_preserved:
  assumes "schema_ok st" and "availability_invariant st"
  shows "\<forall>s \<in> set (slots (run evs st)).
           is_available s \<longleftrightarrow>
             \<not> (\<exists>b \<in> set (bookings (run evs st)).
                  slot_id b = s_id s \<and> (status b = PENDING \<or> status b = CONFIRMED))"
  using run_invariants [OF assms, of evs]
  by (simp add: availability_invariant_def active_on_def active_def)

theorem availability_invariant_preserved_witness:
  "schema_ok clinic \<and> availability_invariant clinic \<and>
   availability_invariant
     (run [Reserve {} 0 100 11 7, Reserve {} 1 101 12 7, Confirm 60 11 100,
           Cancel 90 11 100, SweepExpired 121] clinic)"
proof -
  have "availability_invariant
     (run [Reserve {} 0 100 11 7, Reserve {} 1 101 12 7, Confirm 60 11 100,
           Cancel 90 11 100, SweepExpired 121] clinic)"
    unfolding availability_invariant_def active_on_def active_def
    by (rule availability_invariant_preserved [OF clinic_ok])
  with clinic_ok show ?thesis by simp
qed

subsection \<open>Sweeping twice\<close>

text \<open>
  C9, as the specification states it, fails when a deadline passes between the two
  calls; each call reads \<^verbatim>\<open>NOW()\<close> for itself. Booking 100 of the example is
  pending and expires at 120. The sweep of time 120 finds nothing to expire, since 120
  is not before 120, and returns the count zero; the sweep that follows it at time 121,
  with no call in between, returns the count one, fails the booking and makes slot 7
  available.
\<close>

theorem second_sweep_finds_new_expiry:
  "map status (bookings clinic_pending) = [PENDING]
   \<and> map is_available (slots clinic_pending) = [False]
   \<and> expire_pending_bookings 120 clinic_pending = (0, clinic_pending)
   \<and> fst (expire_pending_bookings 121 (snd (expire_pending_bookings 120 clinic_pending))) = 1
   \<and> map status (bookings (snd (expire_pending_bookings 121
         (snd (expire_pending_bookings 120 clinic_pending))))) = [FAILED]
   \<and> map is_available (slots (snd (expire_pending_bookings 121
         (snd (expire_pending_bookings 120 clinic_pending))))) = [True]"
proof -
  have "map status (bookings clinic_pending) = [PENDING]"
    "map is_available (slots clinic_pending) = [False]"
    by (simp_all add: clinic_pending_eq)
  moreover have "fst (expire_pending_bookings 121 clinic_pending) = 1"
    "map status (bookings (snd (expire_pending_bookings 121 clinic_pending))) = [FAILED]"
    "map is_available (slots (snd (expire_pending_bookings 121 clinic_pending))) = [True]"
    by (simp_all add: sweep_clinic_pending)
  ultimately show ?thesis by (simp add: sweep_at_deadline)
qed

text \<open>
  C9, amended. Let a call of \<^verbatim>\<open>expire_pending_bookings\<close> at time \<open>now\<close> be
  followed, with no call in between, by a second one at time \<open>now'\<close>, and let no
  pending booking have its expiry time from \<open>now\<close> on and before \<open>now'\<close>. Then the
  second call returns the count zero and the database the first call left: no booking
  and no slot changes. Two calls at the same time are the case \<open>now' = now\<close>, where
  the condition holds of every database.
\<close>

theorem expire_pending_bookings_idempotent:
  assumes "\<forall>b \<in> set (bookings st).
             status b = PENDING \<longrightarrow> (\<forall>e. expires_at b = Some e \<longrightarrow> now \<le> e \<longrightarrow> now' \<le> e)"
  shows "expire_pending_bookings now' (snd (expire_pending_bookings now st)) =
           (0, snd (expire_pending_bookings now st))"
proof (rule expire_pending_bookings_nothing)
  from assms have "list_all (\<lambda>b. status b = PENDING \<longrightarrow>
      (\<forall>e. expires_at b = Some e \<longrightarrow> now \<le> e \<longrightarrow> now' \<le> e)) (bookings st)"
    by (simp add: list_all_iff)
  then show "filter (is_expired now') (bookings (snd (expire_pending_bookings now st))) = []"
    by (simp add: expire_pending_bookings_def Let_def nothing_expired_after_sweep)
qed

theorem expire_pending_bookings_idempotent_witness:
  "fst (expire_pending_bookings 121 clinic_pending) = 1
   \<and> expire_pending_bookings 130 (snd (expire_pending_bookings 121 clinic_pending))
       = (0, snd (expire_pending_bookings 121 clinic_pending))
   \<and> expire_pending_bookings 121 (snd (expire_pending_bookings 121 clinic_pending))
       = (0, snd (expire_pending_bookings 121 clinic_pending))
   \<and> expire_pending_bookings 110 (snd (expire_pending_bookings 100 clinic_pending))
       = (0, snd (expire_pending_bookings 100 clinic_pending))"
proof -
  have a: "\<forall>b \<in> set (bookings clinic_pending).
             status b = PENDING \<longrightarrow> (\<forall>e. expires_at b = Some e \<longrightarrow> (121::int) \<le> e \<longrightarrow> 130 \<le> e)"
    by (simp add: clinic_pending_eq)
  have b: "\<forall>b \<in> set (bookings clinic_pending).
             status b = PENDING \<longrightarrow> (\<forall>e. expires_at b = Some e \<longrightarrow> (121::int) \<le> e \<longrightarrow> 121 \<le> e)"
    by simp
  have c: "\<forall>b \<in> set (bookings clinic_pending).
             status b = PENDING \<longrightarrow> (\<forall>e. expires_at b = Some e \<longrightarrow> (100::int) \<le> e \<longrightarrow> 110 \<le> e)"
    by (simp add: clinic_pending_eq)
  have "fst (expire_pending_bookings 121 clinic_pending) = 1"
    by (simp add: sweep_clinic_pending)
  with expire_pending_bookings_idempotent [OF a] expire_pending_bookings_idempotent [OF b]
    expire_pending_bookings_idempotent [OF c]
  show ?thesis by blast
qed

subsection \<open>Confirming in time\<close>

text \<open>
  C5, as the specification states it, fails at the deadline itself: booking 100 of the
  example is pending and expires at 120, and its owner's call of
  \<^verbatim>\<open>confirm_booking\<close> at time 120, which is not before 120, succeeds.
\<close>

theorem confirm_at_deadline_succeeds:
  "map status (bookings clinic_pending) = [PENDING]
   \<and> map expires_at (bookings clinic_pending) = [Some 120]
   \<and> \<not> ((120 :: timestamptz) < 120)
   \<and> fst (confirm_booking 120 11 100 clinic_pending) = Success ''Booking confirmed successfully''
   \<and> map status (bookings (snd (confirm_booking 120 11 100 clinic_pending))) = [CONFIRMED]"
  by (simp add: clinic_pending_eq eval_defs)

text \<open>
  C5, amended. In a database that satisfies the constraints of the schema,
  \<^verbatim>\<open>confirm_booking\<close> succeeds if and only if the booking exists and belongs to the
  requester, it is pending, and its expiry time is not before now: the test of the
  function is \<^verbatim>\<open>expires_at < NOW()\<close>, so a call at the deadline still succeeds
  (and so does one on a pending booking with no expiry time). On success the booking is
  confirmed, \<^verbatim>\<open>confirmed_at\<close> is now, \<^verbatim>\<open>expires_at\<close> is cleared, and nothing
  else changes but the row's \<^verbatim>\<open>updated_at\<close>.
\<close>

theorem confirm_booking_succeeds_iff:
  assumes ok: "schema_ok st"
  shows "((\<exists>m. fst (confirm_booking now u bid st) = Success m) \<longleftrightarrow>
           (\<exists>b \<in> set (bookings st). b_id b = bid \<and> user_id b = u \<and> status b = PENDING \<and>
              (case expires_at b of None \<Rightarrow> True | Some e \<Rightarrow> now \<le> e)))
       \<and> (\<forall>m. fst (confirm_booking now u bid st) = Success m \<longrightarrow>
             snd (confirm_booking now u bid st) =
               st\<lparr>bookings :=
                    map (\<lambda>b. if b_id b = bid
                              then b\<lparr>status := CONFIRMED, confirmed_at := Some now,
                                     expires_at := None, updated_at := now\<rparr>
                              else b) (bookings st)\<rparr>)"
proof -
  have eq: "(case expires_at b of None \<Rightarrow> True | Some e \<Rightarrow> now \<le> e)
            \<longleftrightarrow> \<not> before_now (expires_at b) now" for b
    by (cases "expires_at b") (simp_all add: not_less)
  have "(\<exists>m. fst (confirm_booking now u bid st) = Success m) \<longleftrightarrow>
           (\<exists>b \<in> set (bookings st). b_id b = bid \<and> user_id b = u \<and> status b = PENDING \<and>
              (case expires_at b of None \<Rightarrow> True | Some e \<Rightarrow> now \<le> e))"
    unfolding eq by (rule confirm_booking_success_iff [OF ok])
  moreover have "\<forall>m. fst (confirm_booking now u bid st) = Success m \<longrightarrow>
             snd (confirm_booking now u bid st) =
               st\<lparr>bookings :=
                    map (\<lambda>b. if b_id b = bid
                              then b\<lparr>status := CONFIRMED, confirmed_at := Some now,
                                     expires_at := None, updated_at := now\<rparr>
                              else b) (bookings st)\<rparr>"
    using confirm_booking_success_state [of now u bid st]
    by (simp add: update_bookings_def)
  ultimately show ?thesis by blast
qed

theorem confirm_booking_succeeds_iff_witness:
  "schema_ok clinic_pending
   \<and> (\<exists>m. fst (confirm_booking 120 11 100 clinic_pending) = Success m)
   \<and> (\<exists>b \<in> set (bookings clinic_pending). b_id b = 100 \<and> user_id b = 11 \<and>
         status b = PENDING \<and> (case expires_at b of None \<Rightarrow> True | Some e \<Rightarrow> 120 \<le> e))
   \<and> \<not> (\<exists>m. fst (confirm_booking 121 11 100 clinic_pending) = Success m)
   \<and> map status (bookings (snd (confirm_booking 120 11 100 clinic_pending))) = [CONFIRMED]
   \<and> map confirmed_at (bookings (snd (confirm_booking 120 11 100 clinic_pending))) = [Some 120]
   \<and> map expires_at (bookings (snd (confirm_booking 120 11 100 clinic_pending))) = [None]"
proof -
  note t = confirm_booking_succeeds_iff [OF clinic_pending_ok(1)]
  have b: "\<exists>b \<in> set (bookings clinic_pending). b_id b = 100 \<and> user_id b = 11 \<and>
         status b = PENDING \<and> (case expires_at b of None \<Rightarrow> True | Some e \<Rightarrow> 120 \<le> e)"
    by (simp add: clinic_pending_eq)
  with t [of 120 11 100] have s: "\<exists>m. fst (confirm_booking 120 11 100 clinic_pending) = Success m"
    by blast
  have "\<not> (\<exists>b \<in> set (bookings clinic_pending). b_id b = 100 \<and> user_id b = 11 \<and>
         status b = PENDING \<and> (case expires_at b of None \<Rightarrow> True | Some e \<Rightarrow> 121 \<le> e))"
    by (simp add: clinic_pending_eq)
  with t [of 121 11 100]
  have n: "\<not> (\<exists>m. fst (confirm_booking 121 11 100 clinic_pending) = Success m)"
    by blast
  from s t [of 120 11 100]
  have "snd (confirm_booking 120 11 100 clinic_pending) =
          clinic_pending\<lparr>bookings :=
             map (\<lambda>b. if b_id b = 100
                       then b\<lparr>status := CONFIRMED, confirmed_at := Some 120,
                              expires_at := None, updated_at := 120\<rparr>
                       else b) (bookings clinic_pending)\<rparr>"
    by blast
  then have "map status (bookings (snd (confirm_booking 120 11 100 clinic_pending))) = [CONFIRMED]"
    "map confirmed_at (bookings (snd (confirm_booking 120 11 100 clinic_pending))) = [Some 120]"
    "map expires_at (bookings (snd (confirm_booking 120 11 100 clinic_pending))) = [None]"
    by (simp_all add: clinic_pending_eq)
  with clinic_pending_ok(1) s b n show ?thesis by blast
qed

subsection \<open>Confirming too late\<close>

text \<open>
  C6. In a database that satisfies the constraints of the schema, take a pending booking
  whose expiry time is before now. No call of \<^verbatim>\<open>confirm_booking\<close> on it
  succeeds, whoever calls, and none leaves it confirmed. The call of its owner returns
  \<^verbatim>\<open>BOOKING_EXPIRED\<close>; after that call the booking is failed, and the slot it
  refers to exists and is available.
\<close>

theorem confirm_booking_expired:
  assumes ok: "schema_ok st" and b: "b \<in> set (bookings st)"
    and pending: "status b = PENDING" and expiry: "expires_at b = Some e" and late: "e < now"
  shows "(\<forall>u m. fst (confirm_booking now u (b_id b) st) \<noteq> Success m)
       \<and> (\<forall>u. \<not> (\<exists>r \<in> set (bookings (snd (confirm_booking now u (b_id b) st))).
                    b_id r = b_id b \<and> status r = CONFIRMED))
       \<and> fst (confirm_booking now (user_id b) (b_id b) st) =
           Failure BOOKING_EXPIRED ''Booking has expired. Please try booking again.''
       \<and> b\<lparr>status := FAILED, updated_at := now\<rparr>
           \<in> set (bookings (snd (confirm_booking now (user_id b) (b_id b) st)))
       \<and> (\<exists>s \<in> set (slots (snd (confirm_booking now (user_id b) (b_id b) st))).
             s_id s = slot_id b)
       \<and> (\<forall>s \<in> set (slots (snd (confirm_booking now (user_id b) (b_id b) st))).
             s_id s = slot_id b \<longrightarrow> is_available s)"
proof -
  let ?own = "confirm_booking now (user_id b) (b_id b) st"
  let ?bs = "update_bookings now (\<lambda>r. b_id r = b_id b) (\<lambda>r. r\<lparr>status := FAILED\<rparr>) (bookings st)"
  let ?ss = "set_available (\<lambda>s. s_id s = slot_id b) True (slots st)"
  have only: "\<And>r. r \<in> set (bookings st) \<Longrightarrow> b_id r = b_id b \<Longrightarrow> r = b"
    using booking_by_id [OF ok _ b] by simp
  have own: "?own = (Failure BOOKING_EXPIRED ''Booking has expired. Please try booking again.'',
                     st\<lparr>bookings := ?bs, slots := ?ss\<rparr>)"
    using find_booking [OF ok b] pending expiry late by (simp add: confirm_booking_def)
  have other: "confirm_booking now u (b_id b) st = (Failure BOOKING_NOT_FOUND ''Booking not found'', st)"
    if "u \<noteq> user_id b" for u
    using find_booking_other_user [OF ok b that] by (simp add: confirm_booking_def)
  have 1: "\<forall>u m. fst (confirm_booking now u (b_id b) st) \<noteq> Success m"
  proof (intro allI)
    fix u m
    show "fst (confirm_booking now u (b_id b) st) \<noteq> Success m"
      by (cases "u = user_id b") (simp_all add: own other)
  qed
  have failed: "\<And>r. r \<in> set ?bs \<Longrightarrow> b_id r = b_id b \<Longrightarrow> status r = FAILED"
    using failed_rows [of "b_id b" now "bookings st"] by (simp add: list_all_iff)
  have 2: "\<forall>u. \<not> (\<exists>r \<in> set (bookings (snd (confirm_booking now u (b_id b) st))).
                    b_id r = b_id b \<and> status r = CONFIRMED)"
  proof (intro allI)
    fix u
    show "\<not> (\<exists>r \<in> set (bookings (snd (confirm_booking now u (b_id b) st))).
                    b_id r = b_id b \<and> status r = CONFIRMED)"
    proof (cases "u = user_id b")
      case True
      then show ?thesis using failed by (auto simp: own)
    next
      case False
      have "status r \<noteq> CONFIRMED" if "r \<in> set (bookings st)" "b_id r = b_id b" for r
        using only [OF that] pending by simp
      then show ?thesis unfolding other [OF False] snd_conv by blast
    qed
  qed
  have 3: "b\<lparr>status := FAILED, updated_at := now\<rparr> \<in> set (bookings (snd ?own))"
    using update_bookings_mem
      [where b = b and bs = "bookings st" and c = "\<lambda>r. b_id r = b_id b"
         and f = "\<lambda>r. r\<lparr>status := FAILED\<rparr>" and now = now] b
    by (simp add: own)
  have 4: "(\<exists>s \<in> set (slots (snd ?own)). s_id s = slot_id b)
         \<and> (\<forall>s \<in> set (slots (snd ?own)). s_id s = slot_id b \<longrightarrow> is_available s)"
    using released_slot [OF booking_slot_exists [OF ok b]] by (simp add: own)
  from 1 2 3 4 show ?thesis by (simp add: own)
qed

theorem confirm_booking_expired_witness:
  "schema_ok clinic_pending
   \<and> map status (bookings clinic_pending) = [PENDING]
   \<and> map expires_at (bookings clinic_pending) = [Some 120]
   \<and> (120 :: timestamptz) < 121
   \<and> fst (confirm_booking 121 11 100 clinic_pending) =
       Failure BOOKING_EXPIRED ''Booking has expired. Please try booking again.''
   \<and> map status (bookings (snd (confirm_booking 121 11 100 clinic_pending))) = [FAILED]
   \<and> map is_available (slots (snd (confirm_booking 121 11 100 clinic_pending))) = [True]"
proof -
  let ?b = "\<lparr>b_id = 100, user_id = 11, slot_id = 7, doctor_id = 5,
             status = PENDING, b_notes = None, expires_at = Some 120,
             confirmed_at = None, cancelled_at = None, created_at = 0,
             updated_at = 0\<rparr>"
  have b: "?b \<in> set (bookings clinic_pending)" by (simp add: clinic_pending_eq)
  have "fst (confirm_booking 121 (user_id ?b) (b_id ?b) clinic_pending) =
       Failure BOOKING_EXPIRED ''Booking has expired. Please try booking again.''"
    using confirm_booking_expired [OF clinic_pending_ok(1) b, of 120 121] by simp
  then have "fst (confirm_booking 121 11 100 clinic_pending) =
       Failure BOOKING_EXPIRED ''Booking has expired. Please try booking again.''"
    by simp
  moreover have "map status (bookings (snd (confirm_booking 121 11 100 clinic_pending))) = [FAILED]"
    "map is_available (slots (snd (confirm_booking 121 11 100 clinic_pending))) = [True]"
    "map status (bookings clinic_pending) = [PENDING]"
    "map expires_at (bookings clinic_pending) = [Some 120]"
    by (simp_all add: clinic_pending_eq eval_defs)
  ultimately show ?thesis using clinic_pending_ok(1) by simp
qed

subsection \<open>Expiry times\<close>

text \<open>
  C7, as the specification states it, fails for a booking that the sweep fails. In the
  example no booking carries an expiry time at the start; user 11 reserves slot 7 at
  time 0 and the sweep runs at time 121. Booking 100 is then failed and still carries
  the expiry time 120: \<^verbatim>\<open>expire_pending_bookings\<close> sets the status and nothing
  else.
\<close>

theorem failed_booking_keeps_expiry:
  "expiry_only_while_pending clinic
   \<and> run [Reserve {} 0 100 11 7, SweepExpired 121] clinic = clinic_swept
   \<and> map status (bookings clinic_swept) = [FAILED]
   \<and> map expires_at (bookings clinic_swept) = [Some 120]
   \<and> \<not> expiry_only_while_pending clinic_swept"
proof -
  have "expiry_only_while_pending clinic"
    by (simp add: clinic_def expiry_only_while_pending_def)
  moreover have "map status (bookings clinic_swept) = [FAILED]"
    "map expires_at (bookings clinic_swept) = [Some 120]"
    "\<not> expiry_only_while_pending clinic_swept"
    by (simp_all add: clinic_swept_eq expiry_only_while_pending_def)
  ultimately show ?thesis using run_clinic_swept by blast
qed

text \<open>
  C7, amended. Confirmation clears the expiry time, and no confirmed booking carries
  one: if that holds of a database, it holds after any sequence of calls of the four
  functions. Nothing else changes an expiry time. A successful
  \<^verbatim>\<open>confirm_booking\<close> clears it on the booking it confirms and on no other;
  \<^verbatim>\<open>book_slot\<close> leaves the rows that exist as they are;
  \<^verbatim>\<open>expire_pending_bookings\<close>, \<^verbatim>\<open>cancel_booking\<close> and a
  \<^verbatim>\<open>confirm_booking\<close> that does not succeed leave the expiry time of every
  booking as it was, also of the bookings they fail or cancel. So a booking that fails,
  by the sweep or by a late confirmation, or is cancelled while pending, keeps the
  expiry time it had.
\<close>

theorem expiry_time_cleared_by_confirmation_only:
  "(confirmed_without_expiry st \<longrightarrow>
      (\<forall>b \<in> set (bookings (run evs st)). status b = CONFIRMED \<longrightarrow> expires_at b = None))
   \<and> (\<forall>m. fst (confirm_booking now u bid st) = Success m \<longrightarrow>
         map expires_at (bookings (snd (confirm_booking now u bid st)))
           = map (\<lambda>b. if b_id b = bid then None else expires_at b) (bookings st))
   \<and> take (length (bookings st)) (bookings (snd (book_slot locked now new_id u p st)))
       = bookings st
   \<and> map expires_at (bookings (snd (expire_pending_bookings now st)))
       = map expires_at (bookings st)
   \<and> map status (bookings (snd (expire_pending_bookings now st)))
       = map (\<lambda>b. if status b = PENDING \<and> before_now (expires_at b) now
                   then FAILED else status b) (bookings st)
   \<and> ((\<forall>m. fst (confirm_booking now u bid st) \<noteq> Success m) \<longrightarrow>
         map expires_at (bookings (snd (confirm_booking now u bid st)))
           = map expires_at (bookings st))
   \<and> (\<forall>m. fst (confirm_booking now u bid st) = Failure BOOKING_EXPIRED m \<longrightarrow>
         map status (bookings (snd (confirm_booking now u bid st)))
           = map (\<lambda>b. if b_id b = bid then FAILED else status b) (bookings st))
   \<and> map expires_at (bookings (snd (cancel_booking now u bid st)))
       = map expires_at (bookings st)
   \<and> (\<forall>m. fst (cancel_booking now u bid st) = Success m \<longrightarrow>
         map status (bookings (snd (cancel_booking now u bid st)))
           = map (\<lambda>b. if b_id b = bid then CANCELLED else status b) (bookings st))"
proof -
  have "confirmed_without_expiry st \<longrightarrow>
      (\<forall>b \<in> set (bookings (run evs st)). status b = CONFIRMED \<longrightarrow> expires_at b = None)"
    using run_confirmed_without_expiry [of st evs]
    by (simp add: confirmed_without_expiry_def)
  then show ?thesis
    using confirm_booking_rows [of now u bid st] book_slot_keeps_rows [of st locked now new_id u p]
      expire_pending_bookings_rows [of now st] cancel_booking_rows [of now u bid st]
    by blast
qed

theorem expiry_time_cleared_by_confirmation_only_witness:
  "confirmed_without_expiry clinic
   \<and> confirmed_without_expiry (run [Reserve {} 0 100 11 7, Confirm 60 11 100] clinic)
   \<and> map expires_at (bookings clinic_pending) = [Some 120]
   \<and> fst (confirm_booking 60 11 100 clinic_pending) = Success ''Booking confirmed successfully''
   \<and> map expires_at (bookings (snd (confirm_booking 60 11 100 clinic_pending))) = [None]
   \<and> map status (bookings (snd (expire_pending_bookings 121 clinic_pending))) = [FAILED]
   \<and> map expires_at (bookings (snd (expire_pending_bookings 121 clinic_pending))) = [Some 120]
   \<and> fst (confirm_booking 121 11 100 clinic_pending) =
       Failure BOOKING_EXPIRED ''Booking has expired. Please try booking again.''
   \<and> map status (bookings (snd (confirm_booking 121 11 100 clinic_pending))) = [FAILED]
   \<and> map expires_at (bookings (snd (confirm_booking 121 11 100 clinic_pending))) = [Some 120]
   \<and> fst (cancel_booking 30 11 100 clinic_pending) = Success ''Booking cancelled successfully''
   \<and> map status (bookings (snd (cancel_booking 30 11 100 clinic_pending))) = [CANCELLED]
   \<and> map expires_at (bookings (snd (cancel_booking 30 11 100 clinic_pending))) = [Some 120]"
proof -
  note t1 = expiry_time_cleared_by_confirmation_only
    [of clinic "[Reserve {} 0 100 11 7, Confirm 60 11 100]" 0 0 0 "{}" 0 0]
  note t60 = expiry_time_cleared_by_confirmation_only
    [of clinic_pending "[]" 60 11 100 "{}" 0 0]
  note t121 = expiry_time_cleared_by_confirmation_only
    [of clinic_pending "[]" 121 11 100 "{}" 0 0]
  note t30 = expiry_time_cleared_by_confirmation_only
    [of clinic_pending "[]" 30 11 100 "{}" 0 0]
  have h: "confirmed_without_expiry clinic"
    by (simp add: confirmed_without_expiry_def clinic_def)
  with t1 have r: "confirmed_without_expiry (run [Reserve {} 0 100 11 7, Confirm 60 11 100] clinic)"
    unfolding confirmed_without_expiry_def by blast
  have e0: "map expires_at (bookings clinic_pending) = [Some 120]"
    by (simp add: clinic_pending_eq)
  have c60: "fst (confirm_booking 60 11 100 clinic_pending) = Success ''Booking confirmed successfully''"
    by (simp add: confirm_clinic_pending)
  with t60 have "map expires_at (bookings (snd (confirm_booking 60 11 100 clinic_pending)))
      = map (\<lambda>b. if b_id b = 100 then None else expires_at b) (bookings clinic_pending)"
    by blast
  then have e60: "map expires_at (bookings (snd (confirm_booking 60 11 100 clinic_pending))) = [None]"
    by (simp add: clinic_pending_eq)
  from t121 have "map expires_at (bookings (snd (expire_pending_bookings 121 clinic_pending)))
       = map expires_at (bookings clinic_pending)"
    and "map status (bookings (snd (expire_pending_bookings 121 clinic_pending)))
       = map (\<lambda>b. if status b = PENDING \<and> before_now (expires_at b) 121
                   then FAILED else status b) (bookings clinic_pending)"
    by blast+
  then have sw: "map expires_at (bookings (snd (expire_pending_bookings 121 clinic_pending))) = [Some 120]"
    "map status (bookings (snd (expire_pending_bookings 121 clinic_pending))) = [FAILED]"
    by (simp_all add: clinic_pending_eq)
  have c121: "fst (confirm_booking 121 11 100 clinic_pending) =
       Failure BOOKING_EXPIRED ''Booking has expired. Please try booking again.''"
    by (simp add: clinic_pending_eq eval_defs)
  then have "\<forall>m. fst (confirm_booking 121 11 100 clinic_pending) \<noteq> Success m" by simp
  with t121 c121 have "map expires_at (bookings (snd (confirm_booking 121 11 100 clinic_pending)))
           = map expires_at (bookings clinic_pending)"
    and "map status (bookings (snd (confirm_booking 121 11 100 clinic_pending)))
           = map (\<lambda>b. if b_id b = 100 then FAILED else status b) (bookings clinic_pending)"
    by blast+
  then have late: "map expires_at (bookings (snd (confirm_booking 121 11 100 clinic_pending))) = [Some 120]"
    "map status (bookings (snd (confirm_booking 121 11 100 clinic_pending))) = [FAILED]"
    by (simp_all add: clinic_pending_eq)
  have c30: "fst (cancel_booking 30 11 100 clinic_pending) = Success ''Booking cancelled successfully''"
    by (simp add: clinic_pending_eq eval_defs)
  with t30 have "map expires_at (bookings (snd (cancel_booking 30 11 100 clinic_pending)))
       = map expires_at (bookings clinic_pending)"
    and "map status (bookings (snd (cancel_booking 30 11 100 clinic_pending)))
           = map (\<lambda>b. if b_id b = 100 then CANCELLED else status b) (bookings clinic_pending)"
    by blast+
  then have ca: "map expires_at (bookings (snd (cancel_booking 30 11 100 clinic_pending))) = [Some 120]"
    "map status (bookings (snd (cancel_booking 30 11 100 clinic_pending))) = [CANCELLED]"
    by (simp_all add: clinic_pending_eq)
  from h r e0 c60 e60 sw c121 late c30 ca show ?thesis by simp
qed

subsection \<open>Cancelling\<close>

text \<open>
  C8. In a database that satisfies the constraints of the schema, the owner's call of
  \<^verbatim>\<open>cancel_booking\<close> on a confirmed booking succeeds: the booking is cancelled,
  \<^verbatim>\<open>cancelled_at\<close> is the time of the call, and the slot the booking refers to
  exists and is available. A second call on the same booking, at any time, returns
  \<^verbatim>\<open>INVALID_STATUS\<close> and leaves the database exactly as the first call left it.
\<close>

theorem cancel_confirmed_booking_once:
  assumes ok: "schema_ok st" and b: "b \<in> set (bookings st)"
    and confirmed: "status b = CONFIRMED"
  shows "fst (cancel_booking now (user_id b) (b_id b) st) =
           Success ''Booking cancelled successfully''
       \<and> b\<lparr>status := CANCELLED, cancelled_at := Some now, updated_at := now\<rparr>
           \<in> set (bookings (snd (cancel_booking now (user_id b) (b_id b) st)))
       \<and> (\<forall>r \<in> set (bookings (snd (cancel_booking now (user_id b) (b_id b) st))).
             b_id r = b_id b \<longrightarrow> status r = CANCELLED \<and> cancelled_at r = Some now)
       \<and> (\<exists>s \<in> set (slots (snd (cancel_booking now (user_id b) (b_id b) st))).
             s_id s = slot_id b)
       \<and> (\<forall>s \<in> set (slots (snd (cancel_booking now (user_id b) (b_id b) st))).
             s_id s = slot_id b \<longrightarrow> is_available s)
       \<and> cancel_booking now' (user_id b) (b_id b)
             (snd (cancel_booking now (user_id b) (b_id b) st)) =
           (Failure INVALID_STATUS ''Booking cannot be cancelled. Current status: CANCELLED'',
            snd (cancel_booking now (user_id b) (b_id b) st))"
proof -
  let ?f = "\<lambda>r. r\<lparr>status := CANCELLED, cancelled_at := Some now\<rparr>"
  let ?b' = "b\<lparr>status := CANCELLED, cancelled_at := Some now, updated_at := now\<rparr>"
  let ?bs = "update_bookings now (\<lambda>r. b_id r = b_id b) ?f (bookings st)"
  let ?ss = "set_available (\<lambda>s. s_id s = slot_id b) True (slots st)"
  let ?st1 = "st\<lparr>bookings := ?bs, slots := ?ss\<rparr>"
  have first: "cancel_booking now (user_id b) (b_id b) st =
                 (Success ''Booking cancelled successfully'', ?st1)"
    using find_booking [OF ok b] confirmed by (simp add: cancel_booking_def)
  have mem: "?b' \<in> set ?bs"
    using update_bookings_mem
      [where b = b and bs = "bookings st" and c = "\<lambda>r. b_id r = b_id b"
         and f = ?f and now = now] b
    by simp
  have rows: "\<forall>r \<in> set ?bs. b_id r = b_id b \<longrightarrow> status r = CANCELLED \<and> cancelled_at r = Some now"
    using cancelled_rows [of "b_id b" now "bookings st"] by (simp add: list_all_iff)
  have slot: "(\<exists>s \<in> set ?ss. s_id s = slot_id b)
            \<and> (\<forall>s \<in> set ?ss. s_id s = slot_id b \<longrightarrow> is_available s)"
    by (rule released_slot [OF booking_slot_exists [OF ok b]])
  have ok1: "schema_ok ?st1"
    using cancel_booking_schema_ok [OF ok, of now "user_id b" "b_id b"] by (simp add: first)
  have mem1: "?b' \<in> set (bookings ?st1)" using mem by simp
  have "find (\<lambda>r. b_id r = b_id ?b' \<and> user_id r = user_id ?b') (bookings ?st1) = Some ?b'"
    by (rule find_booking [OF ok1 mem1])
  then have "find (\<lambda>r. b_id r = b_id b \<and> user_id r = user_id b) (bookings ?st1) = Some ?b'"
    by simp
  then have second: "cancel_booking now' (user_id b) (b_id b) ?st1 =
      (Failure INVALID_STATUS ''Booking cannot be cancelled. Current status: CANCELLED'', ?st1)"
    by (simp add: cancel_booking_def)
  from mem rows slot second show ?thesis
    unfolding first fst_conv snd_conv by simp
qed

theorem cancel_confirmed_booking_once_witness:
  "schema_ok clinic_confirmed
   \<and> map status (bookings clinic_confirmed) = [CONFIRMED]
   \<and> fst (cancel_booking 90 11 100 clinic_confirmed) = Success ''Booking cancelled successfully''
   \<and> map status (bookings (snd (cancel_booking 90 11 100 clinic_confirmed))) = [CANCELLED]
   \<and> map cancelled_at (bookings (snd (cancel_booking 90 11 100 clinic_confirmed))) = [Some 90]
   \<and> map is_available (slots (snd (cancel_booking 90 11 100 clinic_confirmed))) = [True]
   \<and> cancel_booking 95 11 100 (snd (cancel_booking 90 11 100 clinic_confirmed)) =
       (Failure INVALID_STATUS ''Booking cannot be cancelled. Current status: CANCELLED'',
        snd (cancel_booking 90 11 100 clinic_confirmed))"
proof -
  let ?b = "\<lparr>b_id = 100, user_id = 11, slot_id = 7, doctor_id = 5,
             status = CONFIRMED, b_notes = None, expires_at = None,
             confirmed_at = Some 60, cancelled_at = None, created_at = 0,
             updated_at = 60\<rparr>"
  have b: "?b \<in> set (bookings clinic_confirmed)" by (simp add: clinic_confirmed_eq)
  have c: "status ?b = CONFIRMED" by simp
  from cancel_confirmed_booking_once [OF clinic_confirmed_ok b c, of 90 95]
  have "fst (cancel_booking 90 11 100 clinic_confirmed) = Success ''Booking cancelled successfully''"
    and "cancel_booking 95 11 100 (snd (cancel_booking 90 11 100 clinic_confirmed)) =
       (Failure INVALID_STATUS ''Booking cannot be cancelled. Current status: CANCELLED'',
        snd (cancel_booking 90 11 100 clinic_confirmed))"
    by simp_all
  moreover have "map status (bookings clinic_confirmed) = [CONFIRMED]"
    by (simp add: clinic_confirmed_eq)
  moreover have
    "map status (bookings (snd (cancel_booking 90 11 100 clinic_confirmed))) = [CANCELLED]"
    "map cancelled_at (bookings (snd (cancel_booking 90 11 100 clinic_confirmed))) = [Some 90]"
    "map is_available (slots (snd (cancel_booking 90 11 100 clinic_confirmed))) = [True]"
    by (simp_all add: clinic_confirmed_eq eval_defs)
  ultimately show ?thesis using clinic_confirmed_ok by simp
qed

end
